theory Spec2Isabelle
  imports Complex_Main "HOL-Library.Multiset"
begin

section \<open>Numbers\<close>

text \<open>
  Prices, sizes, thresholds and random draws are JavaScript numbers. They are modelled as
  rationals: finite, not NaN, and with products, quotients and differences taken exactly.
  The special values that the matcher can produce itself are kept, so the result of
  \<^verbatim>\<open>Math.abs(n / d)\<close> and of the sum of two deviations is a \<open>jsnum\<close>: a division by
  a size of zero gives an infinity or NaN, and the sum of two deviations is rounded at the
  top of the range of the doubles as the code rounds it, since the matcher compares that
  sum with \<^verbatim>\<open>Number.MAX_VALUE\<close>.
\<close>

datatype jsnum = Fin rat | Infinity | NaN

definition js_abs_div :: "rat \<Rightarrow> rat \<Rightarrow> jsnum" where
  \<comment> \<open>\<^verbatim>\<open>Math.abs(n / d)\<close>: \<^verbatim>\<open>x / 0\<close> is an infinity, \<^verbatim>\<open>0 / 0\<close> is NaN.\<close>
  "js_abs_div n d = (if d \<noteq> 0 then Fin \<bar>n / d\<bar> else if n = 0 then NaN else Infinity)"

definition MAX_VALUE :: rat where
  \<comment> \<open>\<^verbatim>\<open>Number.MAX_VALUE\<close>, the largest finite double.\<close>
  "MAX_VALUE = 2 ^ 1024 - 2 ^ 971"

definition MAX_VALUE_HALF_ULP :: rat where
  \<comment> \<open>Half the distance from \<^verbatim>\<open>Number.MAX_VALUE\<close> to the double below it, which is
      \<open>2 ^ 1024 - 2 ^ 972\<close>.\<close>
  "MAX_VALUE_HALF_ULP = 2 ^ 970"

text \<open>
  The double that an addition returns for the exact sum \<open>s\<close>, in round to nearest, ties
  to even, as far as a comparison with \<^verbatim>\<open>Number.MAX_VALUE\<close> can tell: a sum of at least
  \<open>MAX_VALUE + 2 ^ 970\<close> overflows to \<^verbatim>\<open>Infinity\<close>, a sum above \<open>MAX_VALUE - 2 ^ 970\<close>
  rounds to \<^verbatim>\<open>Number.MAX_VALUE\<close>, and the tie \<open>MAX_VALUE - 2 ^ 970\<close> goes down to the
  double below, whose mantissa is even. A sum that is not above that tie is rounded by
  the code to a double below \<^verbatim>\<open>Number.MAX_VALUE\<close>, or to minus infinity; it is kept
  exact here, which is below \<^verbatim>\<open>Number.MAX_VALUE\<close> as well. The matcher adds
  deviations, which are not negative.
\<close>

definition js_round_sum :: "rat \<Rightarrow> jsnum" where
  "js_round_sum s =
     (if MAX_VALUE + MAX_VALUE_HALF_ULP \<le> s then Infinity
      else if MAX_VALUE - MAX_VALUE_HALF_ULP < s then Fin MAX_VALUE
      else Fin s)"

fun js_add :: "jsnum \<Rightarrow> jsnum \<Rightarrow> jsnum" where
  "js_add (Fin a) (Fin b) = js_round_sum (a + b)"
| "js_add NaN _ = NaN"
| "js_add _ NaN = NaN"
| "js_add _ _ = Infinity"

fun js_less :: "jsnum \<Rightarrow> jsnum \<Rightarrow> bool" where
  "js_less (Fin a) (Fin b) = (a < b)"
| "js_less (Fin a) Infinity = True"
| "js_less _ _ = False"

fun js_le :: "jsnum \<Rightarrow> jsnum \<Rightarrow> bool" where
  "js_le (Fin a) (Fin b) = (a \<le> b)"
| "js_le (Fin a) Infinity = True"
| "js_le Infinity Infinity = True"
| "js_le _ _ = False"

definition Math_round :: "rat \<Rightarrow> rat" where
  \<comment> \<open>\<^verbatim>\<open>Math.round\<close>: the nearest integer, halves towards plus infinity.\<close>
  "Math_round x = of_int \<lfloor>x + 1 / 2\<rfloor>"

definition getRandomArbitrary :: "rat \<Rightarrow> rat \<Rightarrow> rat \<Rightarrow> rat" where
  \<comment> \<open>The first argument is the value \<^verbatim>\<open>Math.random()\<close> returned.\<close>
  "getRandomArbitrary r mn mx = r * (mx - mn) + mn"

definition applyVariance :: "rat \<Rightarrow> rat \<Rightarrow> rat \<Rightarrow> rat" where
  "applyVariance r baseValue varianceFactor =
     (let variance = getRandomArbitrary r (- varianceFactor) varianceFactor
      in baseValue * (1 + variance))"

definition roundToDecimalPlaces :: "rat \<Rightarrow> nat \<Rightarrow> rat" where
  "roundToDecimalPlaces num decimalPlaces =
     (let factor = 10 ^ decimalPlaces in Math_round (num * factor) / factor)"

section \<open>Orders and the order matcher\<close>

datatype OrderSide = Bid | Ask
datatype OrderType = Limit | Market
datatype OrderStatus = New | Open | Closed | Canceled

text \<open>
  The interface \<^verbatim>\<open>Order\<close>. Optional fields are options. The fields \<^verbatim>\<open>type\<close>,
  \<^verbatim>\<open>size\<close> and \<^verbatim>\<open>id\<close> are \<open>otype\<close>, \<open>osize\<close> and \<open>oid\<close> here.
\<close>

record Order =
  pair :: string
  side :: OrderSide
  otype :: OrderType
  price :: "rat option"
  osize :: rat
  timestamp :: rat
  level :: "nat option"
  oid :: "string option"
  status :: "OrderStatus option"

record OrderMatch =
  existingOrder :: Order
  newOrder :: Order
  priceDeviation :: jsnum
  sizeDeviation :: jsnum

definition truthy :: "rat option \<Rightarrow> bool" where
  \<comment> \<open>Truthiness of an optional number: \<^verbatim>\<open>undefined\<close> and \<^verbatim>\<open>0\<close> are falsy.\<close>
  "truthy x = (case x of None \<Rightarrow> False | Some v \<Rightarrow> v \<noteq> 0)"

definition compareOrders :: "Order \<Rightarrow> Order \<Rightarrow> OrderMatch" where
  "compareOrders existing new =
     \<lparr> existingOrder = existing,
       newOrder = new,
       priceDeviation =
         (if truthy (price existing) \<and> truthy (price new)
          then js_abs_div (the (price existing) - the (price new)) (the (price existing))
          else Fin 1),
       sizeDeviation = js_abs_div (osize existing - osize new) (osize existing) \<rparr>"

definition shouldReplaceOrder :: "OrderMatch \<Rightarrow> rat \<Rightarrow> rat \<Rightarrow> bool" where
  "shouldReplaceOrder m maxPriceDeviation maxSizeDeviation =
     (js_less (Fin maxPriceDeviation) (priceDeviation m) \<or>
      js_less (Fin maxSizeDeviation) (sizeDeviation m))"

text \<open>
  An object reference is a pair of an address and the object's contents: \<^verbatim>\<open>===\<close> on
  orders compares the addresses. The matcher returns one of the references it was given.
\<close>

type_synonym 'r OrderRef = "'r \<times> Order"

text \<open>The body of the \<^verbatim>\<open>for\<close> loop of \<^verbatim>\<open>findMatchingOrder\<close>, on the pair
  \<^verbatim>\<open>(bestMatch, minDeviation)\<close>.\<close>

definition matchStep ::
  "Order \<Rightarrow> rat \<Rightarrow> rat \<Rightarrow> 'r OrderRef option \<times> jsnum \<Rightarrow> 'r OrderRef
     \<Rightarrow> 'r OrderRef option \<times> jsnum" where
  "matchStep existing maxPriceDeviation maxSizeDeviation acc cand =
     (let m = compareOrders existing (snd cand);
          totalDeviation = js_add (priceDeviation m) (sizeDeviation m)
      in if js_less totalDeviation (snd acc) \<and>
            js_le (priceDeviation m) (Fin maxPriceDeviation) \<and>
            js_le (sizeDeviation m) (Fin maxSizeDeviation)
         then (Some cand, totalDeviation)
         else acc)"

definition sameTypeOrders :: "Order \<Rightarrow> 'r OrderRef list \<Rightarrow> 'r OrderRef list" where
  "sameTypeOrders existing newOrders =
     filter (\<lambda>order. side (snd order) = side existing \<and>
                      otype (snd order) = otype existing) newOrders"

definition findMatchingOrder ::
  "Order \<Rightarrow> 'r OrderRef list \<Rightarrow> rat \<Rightarrow> rat \<Rightarrow> 'r OrderRef option" where
  "findMatchingOrder existing newOrders maxPriceDeviation maxSizeDeviation =
     fst (foldl (matchStep existing maxPriceDeviation maxSizeDeviation)
            (None, Fin MAX_VALUE) (sameTypeOrders existing newOrders))"

text \<open>
  The matcher as the specification words it: the deviations of a candidate are within the
  thresholds, a candidate is eligible, and the sum a best match minimises.
\<close>

definition withinThresholds :: "Order \<Rightarrow> rat \<Rightarrow> rat \<Rightarrow> Order \<Rightarrow> bool" where
  "withinThresholds existing maxPriceDeviation maxSizeDeviation cand =
     (js_le (priceDeviation (compareOrders existing cand)) (Fin maxPriceDeviation) \<and>
      js_le (sizeDeviation (compareOrders existing cand)) (Fin maxSizeDeviation))"

definition eligible :: "Order \<Rightarrow> rat \<Rightarrow> rat \<Rightarrow> Order \<Rightarrow> bool" where
  "eligible existing maxPriceDeviation maxSizeDeviation cand =
     (side cand = side existing \<and> otype cand = otype existing \<and>
      withinThresholds existing maxPriceDeviation maxSizeDeviation cand)"

definition totalDeviation :: "Order \<Rightarrow> Order \<Rightarrow> jsnum" where
  "totalDeviation existing cand =
     js_add (priceDeviation (compareOrders existing cand))
            (sizeDeviation (compareOrders existing cand))"

section \<open>Configuration and market data\<close>

text \<open>
  \<^verbatim>\<open>Partial<MarketMakerConfig>\<close>: every field may be missing, and the code reads each
  one with \<^verbatim>\<open>??\<close> and a default.
\<close>

record MarketMakerConfig =
  baseSpreadPercentage :: "rat option"
  spreadVolatilityMultiplier :: "rat option"
  depthLevels :: "rat option"
  baseSizePerLevel :: "rat option"
  sizeRandomizationFactor :: "rat option"
  updateIntervalMs :: "rat option"
  updateIntervalVariance :: "rat option"
  cancelReplaceRatio :: "rat option"

definition orDefault :: "'a option \<Rightarrow> 'a \<Rightarrow> 'a" where
  \<comment> \<open>\<^verbatim>\<open>x ?? d\<close>\<close>
  "orDefault x d = (case x of None \<Rightarrow> d | Some v \<Rightarrow> v)"

text \<open>\<^verbatim>\<open>TickerData\<close>; the fields \<^verbatim>\<open>bid\<close>, \<^verbatim>\<open>ask\<close> and \<^verbatim>\<open>last\<close> are
  \<^verbatim>\<open>number | null\<close>.\<close>

record TickerData =
  tsymbol :: string
  ttimestamp :: rat
  tbid :: "rat option"
  task :: "rat option"
  tlast :: "rat option"

text \<open>
  \<^verbatim>\<open>Math.random()\<close> is an input: the \<open>n\<close>-th call of a cycle returns \<open>rng n\<close>, and
  the functions that draw thread the number of calls made so far.
\<close>

type_synonym rng = "nat \<Rightarrow> rat"

section \<open>The quoting agent: order reconciliation\<close>

text \<open>
  \<^verbatim>\<open>activeMakerOrders\<close> is a JavaScript \<^verbatim>\<open>Map\<close>: an association list in insertion
  order with distinct keys. \<^verbatim>\<open>set\<close> on a present key replaces the value in place, on a
  new key it appends.
\<close>

type_synonym OrderMap = "(string \<times> Order) list"

definition map_set :: "string \<Rightarrow> Order \<Rightarrow> OrderMap \<Rightarrow> OrderMap" where
  "map_set k v m =
     (if k \<in> fst ` set m then map (\<lambda>e. if fst e = k then (k, v) else e) m else m @ [(k, v)])"

definition map_delete :: "string \<Rightarrow> OrderMap \<Rightarrow> OrderMap" where
  "map_delete k m = filter (\<lambda>e. fst e \<noteq> k) m"

text \<open>The calls made on the order-execution client.\<close>

record FlashnetOrder =
  fside :: OrderSide
  quantity :: rat
  fprice :: rat
  ftype :: OrderType

datatype ClientCall = CancelOrders "string list" | SubmitOrder FlashnetOrder

text \<open>
  What one \<^verbatim>\<open>submitOrder\<close> call does: it throws, or it resolves and
  \<^verbatim>\<open>getOrderIds()\<close> gives a list of ids (a missing list behaves as the empty one).
\<close>

datatype SubmitResult = Throws | OrderIds "string list"

text \<open>
  The state of the first pass of \<^verbatim>\<open>manageOrders\<close>. A desired order is identified by
  its position in \<^verbatim>\<open>newOrders\<close> (the objects of that array are distinct), so
  \<^verbatim>\<open>matchedNewOrders\<close> holds positions. A resting order is kept with its key: the values
  of the map are distinct objects, so the entry that step 2 finds by identity is the entry
  the order was read from.
\<close>

record Pass1 =
  matchedNewOrders :: "nat list"
  ordersToKeep :: OrderMap
  ordersToCancel :: OrderMap
  drawn :: nat

definition unmatched :: "nat list \<Rightarrow> Order list \<Rightarrow> nat OrderRef list" where
  \<comment> \<open>\<^verbatim>\<open>newOrders.filter((o) => !matchedNewOrders.has(o))\<close>\<close>
  "unmatched matched newOrders =
     filter (\<lambda>d. fst d \<notin> set matched) (enumerate 0 newOrders)"

definition maxPriceDeviation0 :: rat where "maxPriceDeviation0 = 1 / 1000"
definition maxSizeDeviation0 :: rat where "maxSizeDeviation0 = 1 / 10"

definition classifyStep ::
  "rat \<Rightarrow> rng \<Rightarrow> Order list \<Rightarrow> Pass1 \<Rightarrow> string \<times> Order \<Rightarrow> Pass1" where
  "classifyStep ratio rnd newOrders st entry =
     (case findMatchingOrder (snd entry) (unmatched (matchedNewOrders st) newOrders)
             maxPriceDeviation0 maxSizeDeviation0 of
        None \<Rightarrow> st\<lparr> ordersToCancel := ordersToCancel st @ [entry] \<rparr>
      | Some matchingNewOrder \<Rightarrow>
          if rnd (drawn st) > ratio
          then st\<lparr> ordersToKeep := ordersToKeep st @ [entry],
                   matchedNewOrders := fst matchingNewOrder # matchedNewOrders st,
                   drawn := Suc (drawn st) \<rparr>
          else st\<lparr> ordersToCancel := ordersToCancel st @ [entry],
                   drawn := Suc (drawn st) \<rparr>)"

definition classify :: "rat \<Rightarrow> rng \<Rightarrow> Order list \<Rightarrow> OrderMap \<Rightarrow> Pass1" where
  "classify ratio rnd newOrders active =
     foldl (classifyStep ratio rnd newOrders)
       \<lparr> matchedNewOrders = [], ordersToKeep = [], ordersToCancel = [], drawn = 0 \<rparr> active"

text \<open>Step 2. The batch cancel is one call; \<open>cancelOk\<close> says whether it resolves.\<close>

definition orderIdsToCancel :: "OrderMap \<Rightarrow> string list" where
  "orderIdsToCancel toCancel = List.map_filter (\<lambda>e. oid (snd e)) toCancel"

definition cancelStep :: "bool \<Rightarrow> OrderMap \<Rightarrow> OrderMap \<Rightarrow> OrderMap \<times> ClientCall list" where
  "cancelStep cancelOk toCancel active =
     (if toCancel \<noteq> [] \<and> orderIdsToCancel toCancel \<noteq> []
      then (if cancelOk
            then foldl (\<lambda>m e. if fst e \<noteq> [] then map_delete (fst e) m else m) active toCancel
            else active,
            [CancelOrders (orderIdsToCancel toCancel)])
      else (active, []))"

text \<open>Step 3. \<open>submit n\<close> is the outcome of the \<open>n\<close>-th \<^verbatim>\<open>submitOrder\<close> call.\<close>

definition flashnetOrder :: "Order \<Rightarrow> FlashnetOrder" where
  "flashnetOrder order =
     \<lparr> fside = side order, quantity = osize order, fprice = orDefault (price order) 0,
       ftype = Limit \<rparr>"

definition placeStep ::
  "(nat \<Rightarrow> SubmitResult) \<Rightarrow> OrderMap \<times> ClientCall list \<times> nat \<Rightarrow> Order
     \<Rightarrow> OrderMap \<times> ClientCall list \<times> nat" where
  "placeStep submit acc order =
     (case acc of (active, calls, n) \<Rightarrow>
        (case submit n of
           Throws \<Rightarrow> active
         | OrderIds orderIds \<Rightarrow>
             (case orderIds of
                [] \<Rightarrow> active
              | orderId # _ \<Rightarrow>
                  if orderId \<noteq> []
                  then map_set orderId (order\<lparr> oid := Some orderId, status := Some New \<rparr>) active
                  else active),
         calls @ [SubmitOrder (flashnetOrder order)],
         Suc n))"

record Reconciled =
  active' :: OrderMap
  calls :: "ClientCall list"
  kept :: OrderMap
  cancelled :: OrderMap
  toPlace :: "Order list"

definition manageOrders ::
  "rat option \<Rightarrow> rng \<Rightarrow> bool \<Rightarrow> (nat \<Rightarrow> SubmitResult) \<Rightarrow> OrderMap \<Rightarrow> Order list
     \<Rightarrow> Reconciled" where
  "manageOrders ratio rnd cancelOk submit active newOrders =
     (let cancelReplaceRatio = orDefault ratio 0;
          p1 = classify cancelReplaceRatio rnd newOrders active;
          (active1, calls1) = cancelStep cancelOk (ordersToCancel p1) active;
          ordersToPlace = map snd (unmatched (matchedNewOrders p1) newOrders);
          (active2, calls2, n) = foldl (placeStep submit) (active1, [], 0) ordersToPlace
      in \<lparr> active' = active2, calls = calls1 @ calls2, kept = ordersToKeep p1,
           cancelled = ordersToCancel p1, toPlace = ordersToPlace \<rparr>)"

text \<open>
  The entries step 3 records, as the specification words them: each desired order whose
  placement resolved with a non-empty first id, under that id and with status new.
\<close>

definition recorded :: "SubmitResult \<Rightarrow> Order \<Rightarrow> (string \<times> Order) option" where
  "recorded res order =
     (case res of
        OrderIds (orderId # _) \<Rightarrow>
          if orderId \<noteq> [] then Some (orderId, order\<lparr> oid := Some orderId, status := Some New \<rparr>)
          else None
      | _ \<Rightarrow> None)"

definition placedEntries :: "(nat \<Rightarrow> SubmitResult) \<Rightarrow> Order list \<Rightarrow> OrderMap" where
  "placedEntries submit ordersToPlace =
     List.map_filter (\<lambda>(n, order). recorded (submit n) order) (enumerate 0 ordersToPlace)"

definition wellFormed :: "OrderMap \<Rightarrow> bool" where
  \<comment> \<open>What every map built by \<^verbatim>\<open>manageOrders\<close> satisfies: distinct non-empty keys, and
      each order carries its key as id.\<close>
  "wellFormed m = (distinct (map fst m) \<and> (\<forall>e\<in>set m. fst e \<noteq> [] \<and> oid (snd e) = Some (fst e)))"


text \<open>
  Step 1 as the specification words it, for the resting order \<open>entry\<close> that the first pass
  reaches after the entries \<open>pre\<close> of the map: the matcher finds the match \<open>m\<close> for it
  among the desired orders that are unclaimed at that moment, and the draw made for it
  exceeds the ratio. The positions claimed by the entries of a list are the positions of
  the matches its entries are kept with.
\<close>

definition keptWith ::
  "rat \<Rightarrow> rng \<Rightarrow> Order list \<Rightarrow> OrderMap \<Rightarrow> string \<times> Order \<Rightarrow> nat OrderRef \<Rightarrow> bool" where
  "keptWith ratio rnd newOrders pre entry m =
     (findMatchingOrder (snd entry)
        (unmatched (matchedNewOrders (classify ratio rnd newOrders pre)) newOrders)
        maxPriceDeviation0 maxSizeDeviation0 = Some m \<and>
      ratio < rnd (drawn (classify ratio rnd newOrders pre)))"

definition claimed :: "rat \<Rightarrow> rng \<Rightarrow> Order list \<Rightarrow> OrderMap \<Rightarrow> nat set" where
  "claimed ratio rnd newOrders es =
     {i. \<exists>pre entry post m. es = pre @ entry # post \<and>
           keptWith ratio rnd newOrders pre entry m \<and> fst m = i}"


section \<open>The quoting agent: ladder generation\<close>

text \<open>What \<^verbatim>\<open>run\<close> reads of the pair configuration.\<close>

record PairConfig =
  marketMaker :: MarketMakerConfig
  volatilityEstimate :: "rat option"

definition spreadOf :: "PairConfig \<Rightarrow> rat" where
  "spreadOf config =
     (let currentVolatility =
            (if truthy (volatilityEstimate config) then the (volatilityEstimate config)
             else 1 / 100)
      in orDefault (baseSpreadPercentage (marketMaker config)) (1 / 1000) *
           (1 + currentVolatility *
              orDefault (spreadVolatilityMultiplier (marketMaker config)) 1))"

text \<open>
  The target best bid and ask, in this order, after the sanity check; \<open>None\<close> when the
  cycle is skipped because widening does not resolve \<^verbatim>\<open>bid >= ask\<close>.
\<close>

definition targetPrices :: "rat \<Rightarrow> rat \<Rightarrow> (rat \<times> rat) option" where
  "targetPrices midPrice spread =
     (let targetBestAsk = midPrice * (1 + spread / 2);
          targetBestBid = midPrice * (1 - spread / 2)
      in if targetBestBid \<ge> targetBestAsk
         then (let widerAsk = targetBestAsk * (10001 / 10000);
                   widerBid = targetBestBid * (9999 / 10000)
               in if widerBid \<ge> widerAsk then None else Some (widerBid, widerAsk))
         else Some (targetBestBid, targetBestAsk))"

definition makerTargets :: "PairConfig \<Rightarrow> TickerData option \<Rightarrow> (rat \<times> rat) option" where
  \<comment> \<open>\<open>None\<close> also when there is no ticker, or its bid or ask is null.\<close>
  "makerTargets config ticker =
     (case ticker of
        None \<Rightarrow> None
      | Some t \<Rightarrow>
          (case (tbid t, task t) of
             (Some b, Some a) \<Rightarrow> targetPrices ((b + a) / 2) (spreadOf config)
           | _ \<Rightarrow> None))"

definition levelFactor :: "nat \<Rightarrow> rat" where
  "levelFactor i = 1 + of_nat i * (1 / 10)"

definition bidPriceAt :: "rat \<Rightarrow> rat \<Rightarrow> nat \<Rightarrow> rat" where
  "bidPriceAt targetBestBid targetBestAsk i =
     (let priceIncrement = (targetBestAsk - targetBestBid) / 2
      in roundToDecimalPlaces (targetBestBid - of_nat i * priceIncrement * levelFactor i) 5)"

definition askPriceAt :: "rat \<Rightarrow> rat \<Rightarrow> nat \<Rightarrow> rat" where
  "askPriceAt targetBestBid targetBestAsk i =
     (let priceIncrement = (targetBestAsk - targetBestBid) / 2
      in roundToDecimalPlaces (targetBestAsk + of_nat i * priceIncrement * levelFactor i) 5)"

definition sizeAt :: "rat \<Rightarrow> rat \<Rightarrow> rat \<Rightarrow> nat \<Rightarrow> rat" where
  \<comment> \<open>The first argument is the draw of \<^verbatim>\<open>applyVariance\<close>.\<close>
  "sizeAt r baseSize factor i =
     roundToDecimalPlaces (applyVariance r (baseSize * levelFactor i) factor) 8"

definition quote :: "string \<Rightarrow> rat \<Rightarrow> OrderSide \<Rightarrow> rat \<Rightarrow> rat \<Rightarrow> nat \<Rightarrow> Order" where
  "quote symbol now sd p s i =
     \<lparr> pair = symbol, side = sd, otype = Limit, price = Some p, osize = s, timestamp = now,
       level = Some (i + 1), oid = None, status = None \<rparr>"

text \<open>
  The body of the \<^verbatim>\<open>for\<close> loop over the levels, on the orders pushed so far and the
  number of draws made so far. \<^verbatim>\<open>continue\<close> leaves both as they are.
\<close>

definition ladderLevel ::
  "string \<Rightarrow> rat \<Rightarrow> rng \<Rightarrow> rat \<Rightarrow> rat \<Rightarrow> rat \<Rightarrow> rat \<Rightarrow> Order list \<times> nat \<Rightarrow> nat
     \<Rightarrow> Order list \<times> nat" where
  "ladderLevel symbol now rnd targetBestBid targetBestAsk baseSize factor acc i =
     (let bidPrice = bidPriceAt targetBestBid targetBestAsk i
      in if bidPrice \<le> 0 then acc
         else
           let bidSize = sizeAt (rnd (snd acc)) baseSize factor i;
               orders1 = (if bidSize > 0 then fst acc @ [quote symbol now Bid bidPrice bidSize i]
                          else fst acc);
               askPrice = askPriceAt targetBestBid targetBestAsk i;
               askSize = sizeAt (rnd (Suc (snd acc))) baseSize factor i;
               orders2 = (if askSize > 0 then orders1 @ [quote symbol now Ask askPrice askSize i]
                          else orders1)
           in (orders2, snd acc + 2))"

definition generateOrders ::
  "string \<Rightarrow> rat \<Rightarrow> rng \<Rightarrow> PairConfig \<Rightarrow> rat \<Rightarrow> rat \<Rightarrow> Order list \<times> nat" where
  "generateOrders symbol now rnd config targetBestBid targetBestAsk =
     foldl (ladderLevel symbol now rnd targetBestBid targetBestAsk
              (orDefault (baseSizePerLevel (marketMaker config)) (1 / 10))
              (orDefault (sizeRandomizationFactor (marketMaker config)) (1 / 10)))
       ([], 0)
       [0 ..< nat \<lceil>orDefault (depthLevels (marketMaker config)) 1\<rceil>]"

definition makerQuotes ::
  "string \<Rightarrow> rat \<Rightarrow> rng \<Rightarrow> PairConfig \<Rightarrow> TickerData option \<Rightarrow> Order list option" where
  \<comment> \<open>The ladder a cycle hands to \<^verbatim>\<open>manageOrders\<close>; \<open>None\<close> when the cycle is skipped.\<close>
  "makerQuotes symbol now rnd config ticker =
     (case makerTargets config ticker of
        None \<Rightarrow> None
      | Some (targetBestBid, targetBestAsk) \<Rightarrow>
          Some (fst (generateOrders symbol now rnd config targetBestBid targetBestAsk)))"

text \<open>One cycle of the quoting agent: the new map and the calls made, nothing on a skip.\<close>

definition makerRun ::
  "string \<Rightarrow> rat \<Rightarrow> rng \<Rightarrow> PairConfig \<Rightarrow> TickerData option \<Rightarrow> bool \<Rightarrow> (nat \<Rightarrow> SubmitResult)
     \<Rightarrow> OrderMap \<Rightarrow> OrderMap \<times> ClientCall list" where
  "makerRun symbol now rnd config ticker cancelOk submit active =
     (case makerTargets config ticker of
        None \<Rightarrow> (active, [])
      | Some (targetBestBid, targetBestAsk) \<Rightarrow>
          (let g = generateOrders symbol now rnd config targetBestBid targetBestAsk;
               r = manageOrders (cancelReplaceRatio (marketMaker config))
                     (\<lambda>n. rnd (snd g + n)) cancelOk submit active (fst g)
           in (active' r, calls r)))"

text \<open>
  An order of the ladder as level \<open>i\<close> emits it: the level's rounded bid price is
  positive, the order has a positive size and the rounded price of its side.
\<close>

definition emittedAt :: "rat \<Rightarrow> rat \<Rightarrow> nat \<Rightarrow> Order \<Rightarrow> bool" where
  "emittedAt tb ta i ord =
     (level ord = Some (Suc i) \<and> 0 < bidPriceAt tb ta i \<and> 0 < osize ord \<and>
      price ord = Some (if side ord = Bid then bidPriceAt tb ta i else askPriceAt tb ta i))"


section \<open>The activity agent: order synthesis\<close>

datatype Strategy = Random | Momentum | MeanReversion | PassiveLimit

record StrategyProbabilities =
  random :: rat
  momentum :: rat
  meanReversion :: rat
  passiveLimit :: rat

text \<open>\<^verbatim>\<open>Required<MarketTakerConfig>\<close>; the size randomization factor of the taker is
  \<open>takerSizeRandomizationFactor\<close> here.\<close>

record MarketTakerConfig =
  avgActionIntervalMs :: rat
  actionIntervalVariance :: rat
  marketOrderProbability :: rat
  baseOrderSize :: rat
  takerSizeRandomizationFactor :: rat
  strategyProbabilities :: StrategyProbabilities
  momentumLookbackTicks :: nat
  meanReversionThreshold :: rat

definition updateRecentPrices :: "nat \<Rightarrow> rat list \<Rightarrow> rat \<Rightarrow> rat list" where
  "updateRecentPrices lookbackTicks recentPrices lastPrice =
     (let pushed = recentPrices @ [lastPrice]
      in if length pushed > lookbackTicks then tl pushed else pushed)"

definition chooseStrategy :: "rat \<Rightarrow> StrategyProbabilities \<Rightarrow> Strategy" where
  "chooseStrategy rand probs =
     (if rand < random probs then Random
      else if rand < random probs + momentum probs then Momentum
      else if rand < random probs + momentum probs + meanReversion probs then MeanReversion
      else if rand < random probs + momentum probs + meanReversion probs + passiveLimit probs
        then PassiveLimit
      else Random)"

definition coin :: "rat \<Rightarrow> OrderSide" where
  \<comment> \<open>\<^verbatim>\<open>Math.random() < 0.5 ? "bid" : "ask"\<close>\<close>
  "coin r = (if r < 1 / 2 then Bid else Ask)"

definition momentumSide :: "rat list \<Rightarrow> OrderSide option" where
  "momentumSide recentPrices =
     (if length recentPrices \<ge> 2
      then (let trend = last recentPrices - hd recentPrices
            in if trend > 0 then Some Bid else if trend < 0 then Some Ask else None)
      else None)"

text \<open>
  The average of the recent prices can be 0; the ticker's last price is not (it is
  truthy), so the deviation is then plus or minus infinity, by the sign of the last price.
\<close>

definition meanReversionSide :: "rat list \<Rightarrow> rat \<Rightarrow> rat \<Rightarrow> OrderSide option" where
  "meanReversionSide recentPrices tickerLast threshold =
     (if length recentPrices > 1
      then (let avgPrice = sum_list recentPrices / of_nat (length recentPrices)
            in if avgPrice = 0
               then (if tickerLast > 0 then Some Ask else Some Bid)
               else (let deviation = (tickerLast - avgPrice) / avgPrice
                     in if deviation > threshold then Some Ask
                        else if deviation < - threshold then Some Bid
                        else None))
      else None)"

definition passivePrice :: "OrderSide \<Rightarrow> rat \<Rightarrow> rat \<Rightarrow> rat \<Rightarrow> rat" where
  \<comment> \<open>The price of the \<^verbatim>\<open>passiveLimit\<close> case; \<open>r\<close> is its draw.\<close>
  "passivePrice sd r tickerBid tickerAsk =
     (let p0 = (if sd = Bid
                then roundToDecimalPlaces
                       (tickerBid * (1 + getRandomArbitrary r (1 / 10000) (5 / 10000))) 5
                else roundToDecimalPlaces
                       (tickerAsk * (1 - getRandomArbitrary r (1 / 10000) (5 / 10000))) 5);
          p1 = (if sd = Bid \<and> p0 > tickerAsk then tickerAsk else p0);
          p2 = (if sd = Ask \<and> p1 < tickerBid then tickerBid else p1);
          p3 = (if p2 \<le> tickerBid \<and> sd = Ask then tickerBid else p2)
      in if p3 \<ge> tickerAsk \<and> sd = Bid then tickerAsk else p3)"

definition limitPrice :: "OrderSide \<Rightarrow> rat \<Rightarrow> rat \<Rightarrow> rat \<Rightarrow> rat" where
  \<comment> \<open>The price of a limit order of the other strategies; \<open>r\<close> is its draw.\<close>
  "limitPrice sd r tickerBid tickerAsk =
     (let midPrice = (tickerBid + tickerAsk) / 2;
          p = (if sd = Bid
               then max (min (roundToDecimalPlaces
                                (getRandomArbitrary r (tickerBid * (9995 / 10000)) midPrice) 5)
                             (tickerAsk * (9999 / 10000)))
                        (tickerBid * (99 / 100))
               else min (max (roundToDecimalPlaces
                                (getRandomArbitrary r midPrice (tickerAsk * (10005 / 10000))) 5)
                             (tickerBid * (10001 / 10000)))
                        (tickerAsk * (101 / 100)));
          p' = (if sd = Bid \<and> p \<ge> tickerAsk then tickerAsk else p)
      in if sd = Ask \<and> p' \<le> tickerBid then tickerBid else p')"

definition calculatedPrice ::
  "OrderSide \<Rightarrow> OrderType \<Rightarrow> rat option \<Rightarrow> rat \<Rightarrow> rat \<Rightarrow> rat \<Rightarrow> rat option" where
  \<comment> \<open>The price as it reaches the final sanity check: computed for a limit order that has
      none yet, and rounded to 5 decimals when present.\<close>
  "calculatedPrice sd tp pr r tickerBid tickerAsk =
     map_option (\<lambda>p. roundToDecimalPlaces p 5)
       (if tp = Limit \<and> pr = None then Some (limitPrice sd r tickerBid tickerAsk) else pr)"

definition finalCheck ::
  "OrderSide \<Rightarrow> OrderType \<Rightarrow> rat option \<Rightarrow> rat \<Rightarrow> rat \<Rightarrow> OrderType \<times> rat option" where
  \<comment> \<open>The final sanity check for limit orders.\<close>
  "finalCheck sd tp pr tickerBid tickerAsk =
     (if tp = Limit
      then (case pr of
              None \<Rightarrow> (Market, None)
            | Some p \<Rightarrow>
                if p \<le> 0 then (Market, None)
                else if sd = Bid \<and> p > tickerAsk then (Limit, Some tickerAsk)
                else if sd = Ask \<and> p < tickerBid then (Limit, Some tickerBid)
                else (Limit, Some p))
      else (tp, pr))"

definition finishOrder ::
  "string \<Rightarrow> rat \<Rightarrow> rat \<Rightarrow> OrderSide \<Rightarrow> OrderType \<Rightarrow> rat option \<Rightarrow> rat \<Rightarrow> rat \<Rightarrow> rat
     \<Rightarrow> Order" where
  \<comment> \<open>From the pricing of non-passive limit orders to the returned order.\<close>
  "finishOrder symbol now sz sd tp pr r tickerBid tickerAsk =
     (case finalCheck sd tp (calculatedPrice sd tp pr r tickerBid tickerAsk) tickerBid tickerAsk of
        (tp', pr') \<Rightarrow>
          \<lparr> pair = symbol, side = sd, otype = tp', price = pr', osize = sz, timestamp = now,
            level = None, oid = None, status = None \<rparr>)"

text \<open>
  \<^verbatim>\<open>generateOrderBasedOnStrategy\<close>. The draws are taken in the order of the calls of
  \<^verbatim>\<open>Math.random()\<close>: the kind, the size, then those of the strategy and of the pricing.
\<close>

definition generateOrderBasedOnStrategy ::
  "string \<Rightarrow> rat \<Rightarrow> rng \<Rightarrow> MarketTakerConfig \<Rightarrow> rat list \<Rightarrow> Strategy \<Rightarrow> TickerData
     \<Rightarrow> Order option" where
  "generateOrderBasedOnStrategy symbol now rnd marketTaker recentPrices strategy ticker =
     (let isMarketOrder = rnd 0 < marketOrderProbability marketTaker;
          sz = roundToDecimalPlaces
                 (applyVariance (rnd 1) (baseOrderSize marketTaker)
                    (takerSizeRandomizationFactor marketTaker)) 8
      in if sz \<le> 0 then None
         else if \<not> truthy (tbid ticker) \<or> \<not> truthy (task ticker) \<or> \<not> truthy (tlast ticker)
         then None
         else
           let b = the (tbid ticker); a = the (task ticker);
               tp = (if isMarketOrder then Market else Limit)
           in (case strategy of
                 Momentum \<Rightarrow>
                   (case momentumSide recentPrices of
                      Some sd \<Rightarrow> Some (finishOrder symbol now sz sd tp None (rnd 2) b a)
                    | None \<Rightarrow> Some (finishOrder symbol now sz (coin (rnd 2)) tp None (rnd 3) b a))
               | MeanReversion \<Rightarrow>
                   (case meanReversionSide recentPrices (the (tlast ticker))
                           (meanReversionThreshold marketTaker) of
                      Some sd \<Rightarrow> Some (finishOrder symbol now sz sd tp None (rnd 2) b a)
                    | None \<Rightarrow> None)
               | PassiveLimit \<Rightarrow>
                   (let sd = coin (rnd 2)
                    in Some (finishOrder symbol now sz sd Limit
                               (Some (passivePrice sd (rnd 3) b a)) (rnd 4) b a))
               | Random \<Rightarrow> Some (finishOrder symbol now sz (coin (rnd 2)) tp None (rnd 3) b a)))"

text \<open>
  The size, side, kind and price that \<^verbatim>\<open>generateOrderBasedOnStrategy\<close> holds when it
  reaches its final sanity check for limit orders, after the price has been calculated and
  rounded; none where the function has returned \<^verbatim>\<open>null\<close> before: the size is not
  positive, the ticker lacks a bid, an ask or a last price, or the mean reversion strategy
  has no signal.
\<close>

definition beforeFinalCheck ::
  "rng \<Rightarrow> MarketTakerConfig \<Rightarrow> rat list \<Rightarrow> Strategy \<Rightarrow> TickerData
     \<Rightarrow> (rat \<times> OrderSide \<times> OrderType \<times> rat option) option" where
  "beforeFinalCheck rnd marketTaker recentPrices strategy ticker =
     (let isMarketOrder = rnd 0 < marketOrderProbability marketTaker;
          sz = roundToDecimalPlaces
                 (applyVariance (rnd 1) (baseOrderSize marketTaker)
                    (takerSizeRandomizationFactor marketTaker)) 8
      in if sz \<le> 0 then None
         else if \<not> truthy (tbid ticker) \<or> \<not> truthy (task ticker) \<or> \<not> truthy (tlast ticker)
         then None
         else
           let b = the (tbid ticker); a = the (task ticker);
               tp = (if isMarketOrder then Market else Limit)
           in (case strategy of
                 Momentum \<Rightarrow>
                   (case momentumSide recentPrices of
                      Some sd \<Rightarrow> Some (sz, sd, tp, calculatedPrice sd tp None (rnd 2) b a)
                    | None \<Rightarrow>
                        Some (sz, coin (rnd 2), tp,
                              calculatedPrice (coin (rnd 2)) tp None (rnd 3) b a))
               | MeanReversion \<Rightarrow>
                   (case meanReversionSide recentPrices (the (tlast ticker))
                           (meanReversionThreshold marketTaker) of
                      Some sd \<Rightarrow> Some (sz, sd, tp, calculatedPrice sd tp None (rnd 2) b a)
                    | None \<Rightarrow> None)
               | PassiveLimit \<Rightarrow>
                   (let sd = coin (rnd 2)
                    in Some (sz, sd, Limit,
                             calculatedPrice sd Limit (Some (passivePrice sd (rnd 3) b a))
                               (rnd 4) b a))
               | Random \<Rightarrow>
                   Some (sz, coin (rnd 2), tp,
                         calculatedPrice (coin (rnd 2)) tp None (rnd 3) b a)))"

text \<open>
  What the specification asks of a returned order, given the ticker's best bid \<open>b\<close> and
  best ask \<open>a\<close>: if it is a limit order, it has a positive price, at most the best ask for
  a bid and at least the best bid for an ask.
\<close>

definition soundLimit :: "rat \<Rightarrow> rat \<Rightarrow> Order \<Rightarrow> bool" where
  "soundLimit b a ord =
     (otype ord = Limit \<longrightarrow>
        (\<exists>p. price ord = Some p \<and> 0 < p \<and>
             (side ord = Bid \<longrightarrow> p \<le> a) \<and> (side ord = Ask \<longrightarrow> b \<le> p)))"

section \<open>Scheduling and lifecycle\<close>

text \<open>
  What an agent does to the outside: timers it sets and clears, calls on the client, and
  the two log lines of the quoting agent's \<^verbatim>\<open>stop\<close> that stand for a cancellation.
\<close>

datatype Effect =
    SetTimeout nat
  | ClearTimeout nat
  | Call ClientCall
  | LogSimulatedCancel string
  | LogNoActiveOrders

text \<open>The fields of \<^verbatim>\<open>BaseBot\<close> that change, and the map of the quoting agent.\<close>

record Bot =
  isRunning :: bool
  timeoutId :: "nat option"
  activeMakerOrders :: OrderMap

text \<open>
  An agent in its event loop: the timers that are pending (by handle), the next fresh
  handle, the number of \<^verbatim>\<open>run\<close> cycles started, the number of cycles started and not
  yet finished, and the effects so far.
\<close>

record World =
  bot :: Bot
  timers :: "nat list"
  nextHandle :: nat
  cycles :: nat
  inflight :: nat
  effects :: "Effect list"

datatype Agent = Maker | Taker

definition clearTimeout :: "nat \<Rightarrow> World \<Rightarrow> World" where
  "clearTimeout h w = w\<lparr> timers := removeAll h (timers w), effects := effects w @ [ClearTimeout h] \<rparr>"

definition scheduleNextRun :: "World \<Rightarrow> World" where
  "scheduleNextRun w =
     (if \<not> isRunning (bot w) then w
      else
        let w1 = (case timeoutId (bot w) of Some h \<Rightarrow> clearTimeout h w | None \<Rightarrow> w);
            h' = nextHandle w1
        in w1\<lparr> bot := (bot w1)\<lparr> timeoutId := Some h' \<rparr>,
               timers := timers w1 @ [h'],
               nextHandle := Suc h',
               effects := effects w1 @ [SetTimeout h'] \<rparr>)"

definition start :: "World \<Rightarrow> World" where
  "start w =
     (if isRunning (bot w) then w
      else scheduleNextRun (w\<lparr> bot := (bot w)\<lparr> isRunning := True \<rparr> \<rparr>))"

definition stop :: "Agent \<Rightarrow> World \<Rightarrow> World" where
  "stop agent w =
     (let w1 = w\<lparr> bot := (bot w)\<lparr> isRunning := False \<rparr> \<rparr>;
          w2 = (case timeoutId (bot w1) of
                  Some h \<Rightarrow> (let c = clearTimeout h w1 in c\<lparr> bot := (bot c)\<lparr> timeoutId := None \<rparr> \<rparr>)
                | None \<Rightarrow> w1)
      in case agent of
           Taker \<Rightarrow> w2
         | Maker \<Rightarrow>
             if activeMakerOrders (bot w2) \<noteq> []
             then w2\<lparr> effects := effects w2 @ map (\<lambda>e. LogSimulatedCancel (fst e))
                                                  (activeMakerOrders (bot w2)),
                      bot := (bot w2)\<lparr> activeMakerOrders := [] \<rparr> \<rparr>
             else w2\<lparr> effects := effects w2 @ [LogNoActiveOrders] \<rparr>)"

text \<open>
  What can happen to an agent. \<open>Fire h\<close>: the pending timer \<open>h\<close> fires, and its callback
  starts a cycle if the agent is running. \<open>CycleEnd early m\<close>: a cycle in flight finishes;
  it leaves the map \<open>m\<close> (quoting agent) and reschedules in its \<^verbatim>\<open>finally\<close>, and once
  more before that when it returned early on a skip.
\<close>

datatype Event = Start | Stop | Fire nat | CycleEnd bool OrderMap

definition step :: "Agent \<Rightarrow> World \<Rightarrow> Event \<Rightarrow> World" where
  "step agent w ev =
     (case ev of
        Start \<Rightarrow> start w
      | Stop \<Rightarrow> stop agent w
      | Fire h \<Rightarrow>
          if h \<in> set (timers w)
          then (let w1 = w\<lparr> timers := removeAll h (timers w) \<rparr>
                in if isRunning (bot w1)
                   then w1\<lparr> cycles := Suc (cycles w1), inflight := Suc (inflight w1) \<rparr>
                   else w1)
          else w
      | CycleEnd early m \<Rightarrow>
          if inflight w = 0 then w
          else
            let w1 = w\<lparr> inflight := inflight w - 1,
                       bot := (if agent = Maker then (bot w)\<lparr> activeMakerOrders := m \<rparr>
                               else bot w) \<rparr>;
                w2 = (if early then scheduleNextRun w1 else w1)
            in scheduleNextRun w2)"

definition exec :: "Agent \<Rightarrow> World \<Rightarrow> Event list \<Rightarrow> World" where
  "exec agent w evs = foldl (step agent) w evs"

definition newBot :: World where
  "newBot = \<lparr> bot = \<lparr> isRunning = False, timeoutId = None, activeMakerOrders = [] \<rparr>,
     timers = [], nextHandle = 0, cycles = 0, inflight = 0, effects = [] \<rparr>"

subsection \<open>A pair and the fleet\<close>

datatype 'a Promise = Rejected | Resolved 'a

record PairTrader =
  pairRunning :: bool
  mmBot :: World
  mtBot :: World

datatype PairStep = AgentStart Agent | AgentStop Agent | WarmUp

definition newPairTrader :: PairTrader where
  "newPairTrader = \<lparr> pairRunning = False, mmBot = newBot, mtBot = newBot \<rparr>"

text \<open>
  \<^verbatim>\<open>PairTrader.start\<close>; the two booleans say whether \<^verbatim>\<open>initializeClient\<close> of the maker
  and of the taker succeeds. The second component lists the calls on the agents in order.
\<close>

definition pairStart ::
  "bool \<Rightarrow> bool \<Rightarrow> PairTrader \<Rightarrow> (PairTrader \<times> PairStep list) Promise" where
  "pairStart makerAuth takerAuth p =
     (if \<not> makerAuth \<or> \<not> takerAuth then Rejected
      else if pairRunning p then Resolved (p, [])
      else Resolved
             (p\<lparr> pairRunning := True, mmBot := start (mmBot p), mtBot := start (mtBot p) \<rparr>,
              [AgentStart Maker, WarmUp, AgentStart Taker]))"

definition pairStop :: "PairTrader \<Rightarrow> PairTrader \<times> PairStep list" where
  "pairStop p =
     (if \<not> pairRunning p then (p, [])
      else (p\<lparr> pairRunning := False, mtBot := stop Taker (mtBot p),
               mmBot := stop Maker (mmBot p) \<rparr>,
            [AgentStop Taker, AgentStop Maker]))"

record BotManager =
  traders :: "(string \<times> PairTrader) list"
  managerRunning :: bool

definition newBotManager :: BotManager where
  "newBotManager = \<lparr> traders = [], managerRunning = False \<rparr>"

text \<open>\<^verbatim>\<open>BotManager.initialize\<close>; \<open>providerOk\<close> says whether
  \<^verbatim>\<open>marketDataProvider.initialize()\<close> resolves. A rejection is caught and turned into
  \<^verbatim>\<open>false\<close>.\<close>

definition initialize :: "bool \<Rightarrow> string list \<Rightarrow> BotManager \<Rightarrow> bool \<times> BotManager" where
  "initialize providerOk pairs m =
     (if providerOk
      then (True, m\<lparr> traders := traders m @ map (\<lambda>s. (s, newPairTrader)) pairs \<rparr>)
      else (False, m))"

definition startAll ::
  "(string \<Rightarrow> bool \<times> bool) \<Rightarrow> (string \<times> PairTrader) list
     \<Rightarrow> (string \<times> PairTrader) list Promise" where
  \<comment> \<open>\<^verbatim>\<open>Promise.all\<close> over \<^verbatim>\<open>trader.start()\<close>: rejected when one start is.\<close>
  "startAll auth ts =
     (if \<exists>t\<in>set ts. pairStart (fst (auth (fst t))) (snd (auth (fst t))) (snd t) = Rejected
      then Rejected
      else Resolved
             (map (\<lambda>t. (fst t,
                         case pairStart (fst (auth (fst t))) (snd (auth (fst t))) (snd t) of
                           Resolved r \<Rightarrow> fst r
                         | Rejected \<Rightarrow> snd t)) ts))"

definition managerStart ::
  "bool \<Rightarrow> (string \<Rightarrow> bool \<times> bool) \<Rightarrow> string list \<Rightarrow> BotManager \<Rightarrow> BotManager Promise" where
  "managerStart providerOk auth pairs m =
     (if managerRunning m then Resolved m
      else
        case initialize providerOk pairs m of
          (initialized, m1) \<Rightarrow>
            if \<not> initialized then Resolved m1
            else (case startAll auth (traders m1) of
                    Rejected \<Rightarrow> Rejected
                  | Resolved ts \<Rightarrow> Resolved (m1\<lparr> managerRunning := True, traders := ts \<rparr>)))"

text \<open>
  \<^verbatim>\<open>main\<close>: the process exits with code 1 when \<^verbatim>\<open>botManager.start()\<close> rejects;
  otherwise it logs that the bots are running and awaits a promise that never settles.
\<close>

datatype Process = Exited nat | Awaiting BotManager

definition main :: "bool \<Rightarrow> (string \<Rightarrow> bool \<times> bool) \<Rightarrow> string list \<Rightarrow> Process" where
  "main providerOk auth pairs =
     (case managerStart providerOk auth pairs newBotManager of
        Rejected \<Rightarrow> Exited 1
      | Resolved m \<Rightarrow> Awaiting m)"

text \<open>
  Two invariants of the scheduling. \<open>tracked\<close>: every pending timer is the one the agent
  holds in \<^verbatim>\<open>timeoutId\<close>. \<open>quiet\<close>: the agent is not running and no timer is pending.
\<close>

definition tracked :: "World \<Rightarrow> bool" where
  "tracked w = (set (timers w) \<subseteq> set_option (timeoutId (bot w)))"

definition quiet :: "World \<Rightarrow> bool" where
  "quiet w = (\<not> isRunning (bot w) \<and> timers w = [])"


section \<open>Example inputs\<close>

definition ex_resting :: Order where
  "ex_resting = \<lparr> pair = ''BTC-USDB'', side = Bid, otype = Limit, price = Some 100, osize = 1,
     timestamp = 0, level = Some 1, oid = Some ''a1'', status = Some New \<rparr>"

definition ex_desired :: "rat \<Rightarrow> rat \<Rightarrow> Order" where
  "ex_desired p s = \<lparr> pair = ''BTC-USDB'', side = Bid, otype = Limit, price = Some p, osize = s,
     timestamp = 0, level = Some 1, oid = None, status = None \<rparr>"


definition cx_resting :: Order where
  "cx_resting = ex_resting\<lparr>price := Some 1\<rparr>"


definition cx_maxPrice :: rat where
  \<comment> \<open>The double below \<^verbatim>\<open>Number.MAX_VALUE\<close>.\<close>
  "cx_maxPrice = 2 ^ 1024 - 2 ^ 972"

definition cx_maxSize :: rat where
  \<comment> \<open>The double above \<open>2 ^ 970\<close>.\<close>
  "cx_maxSize = 2 ^ 970 + 2 ^ 918"

definition cx_near :: Order where
  "cx_near = ex_desired cx_maxPrice cx_maxSize"

definition ex_bid :: "rat \<Rightarrow> rat \<Rightarrow> string \<Rightarrow> Order" where
  \<comment> \<open>A resting bid as step 3 records it.\<close>
  "ex_bid p s k = \<lparr> pair = ''BTC-USDB'', side = Bid, otype = Limit, price = Some p, osize = s,
     timestamp = 0, level = Some 1, oid = Some k, status = Some New \<rparr>"

definition ex_active :: OrderMap where
  "ex_active = [(''a1'', ex_bid 100 1 ''a1''), (''a2'', ex_bid 99 1 ''a2'')]"

definition ex_new :: "Order list" where
  "ex_new = [ex_desired 100.05 1, ex_desired 98 1]"

definition ex_submit :: "nat \<Rightarrow> SubmitResult" where
  "ex_submit n = OrderIds [''b1'']"

definition ex_half :: rng where
  "ex_half n = 1 / 2"

definition ex_zero :: rng where
  "ex_zero n = 0"

definition cx_active :: OrderMap where
  "cx_active = [(''a1'', ex_bid 10000 1 ''a1''), (''a2'', ex_bid 10015 1 ''a2'')]"

definition cx_new :: "Order list" where
  "cx_new = [ex_desired 9991 1, ex_desired 10006 1]"



definition pass1_init :: Pass1 where
  "pass1_init = \<lparr> matchedNewOrders = [], ordersToKeep = [], ordersToCancel = [], drawn = 0 \<rparr>"


definition ex_makerConfig :: MarketMakerConfig where
  \<comment> \<open>The repository's default maker configuration with one level and the size of the
      first configured pair.\<close>
  "ex_makerConfig = \<lparr> baseSpreadPercentage = Some (1 / 1000),
     spreadVolatilityMultiplier = Some (3 / 2), depthLevels = Some 1,
     baseSizePerLevel = Some (1 / 20), sizeRandomizationFactor = Some (1 / 5),
     updateIntervalMs = Some 1000, updateIntervalVariance = Some (3 / 10),
     cancelReplaceRatio = Some 0 \<rparr>"

definition ex_config :: PairConfig where
  "ex_config = \<lparr> marketMaker = ex_makerConfig, volatilityEstimate = Some (1 / 50) \<rparr>"

definition ex_ticker :: "rat \<Rightarrow> rat \<Rightarrow> TickerData" where
  "ex_ticker b a = \<lparr> tsymbol = ''BTC/USD'', ttimestamp = 0, tbid = Some b, task = Some a,
     tlast = Some b \<rparr>"

definition ex_tiny :: TickerData where
  "ex_tiny = ex_ticker (5 / 1000000) (5 / 1000000)"

definition ex_tiny_bid :: rat where "ex_tiny_bid = 199897 / 40000000000"
definition ex_tiny_ask :: rat where "ex_tiny_ask = 200103 / 40000000000"

definition ex_low :: TickerData where
  "ex_low = ex_ticker (1999 / 1000000) (2001 / 1000000)"

definition ex_btc :: TickerData where
  "ex_btc = ex_ticker 100 (1001 / 10)"

definition ex_taker :: MarketTakerConfig where
  \<comment> \<open>The repository's default taker configuration.\<close>
  "ex_taker = \<lparr> avgActionIntervalMs = 5000, actionIntervalVariance = 1 / 5,
     marketOrderProbability = 3 / 5, baseOrderSize = 1 / 50,
     takerSizeRandomizationFactor = 3 / 10,
     strategyProbabilities =
       \<lparr> random = 1 / 2, momentum = 3 / 10, meanReversion = 1 / 10, passiveLimit = 1 / 10 \<rparr>,
     momentumLookbackTicks = 3, meanReversionThreshold = 3 / 1000 \<rparr>"

definition ex_limit_taker :: MarketTakerConfig where
  \<comment> \<open>The default taker configuration with fewer market orders.\<close>
  "ex_limit_taker = ex_taker\<lparr> marketOrderProbability := 1 / 10 \<rparr>"

definition ex_dust :: TickerData where
  \<comment> \<open>A ticker whose prices round to 0 at 5 decimals.\<close>
  "ex_dust = ex_ticker (1 / 1000000) (1 / 1000000)"

definition ex_pair :: PairTrader where
  \<comment> \<open>A running pair whose maker holds two resting orders and a pending timer.\<close>
  "ex_pair = \<lparr> pairRunning = True,
     mmBot = (start newBot)\<lparr> bot := (bot (start newBot))\<lparr> activeMakerOrders := ex_active \<rparr> \<rparr>,
     mtBot = start newBot \<rparr>"

definition ex_auth :: "string \<Rightarrow> bool \<times> bool" where
  "ex_auth s = (True, True)"

section \<open>The order matcher\<close>


lemma half_ulp_pos: "0 < MAX_VALUE_HALF_ULP"
  unfolding MAX_VALUE_HALF_ULP_def by (rule zero_less_power) simp

lemma js_round_sum_exact: "s \<le> MAX_VALUE - MAX_VALUE_HALF_ULP \<Longrightarrow> js_round_sum s = Fin s"
  using half_ulp_pos by (simp add: js_round_sum_def)





lemma matchStep_alt:
  "matchStep e mp ms acc c =
     (if js_less (totalDeviation e (snd c)) (snd acc) \<and> withinThresholds e mp ms (snd c)
      then (Some c, totalDeviation e (snd c)) else acc)"
  by (simp add: matchStep_def totalDeviation_def withinThresholds_def Let_def)

lemma foldl_matchStep_sound:
  "foldl (matchStep e mp ms) (None, d0) xs = (Some c, d) \<Longrightarrow>
     c \<in> set xs \<and> withinThresholds e mp ms (snd c)"
proof (induction xs arbitrary: c d rule: rev_induct)
  case Nil
  then show ?case by simp
next
  case (snoc x xs)
  then show ?case
    by (cases "foldl (matchStep e mp ms) (None, d0) xs")
       (auto simp: matchStep_alt split: if_splits)
qed



lemma findMatchingOrder_sound:
  assumes "findMatchingOrder e cs mp ms = Some c"
  shows "c \<in> set cs \<and> eligible e mp ms (snd c)"
proof -
  obtain b d where st: "foldl (matchStep e mp ms) (None, Fin MAX_VALUE) (sameTypeOrders e cs) = (b, d)"
    by (cases "foldl (matchStep e mp ms) (None, Fin MAX_VALUE) (sameTypeOrders e cs)")
  with assms have "b = Some c" by (simp add: findMatchingOrder_def)
  with st foldl_matchStep_sound[of e mp ms "Fin MAX_VALUE" "sameTypeOrders e cs" c d]
  have "c \<in> set (sameTypeOrders e cs)" "withinThresholds e mp ms (snd c)" by simp_all
  then show ?thesis by (simp add: sameTypeOrders_def eligible_def)
qed





lemma MAX_VALUE_room: "1000000 < MAX_VALUE - MAX_VALUE_HALF_ULP"
proof -
  have a: "(2::rat) ^ 971 \<le> 2 ^ 1022" by (rule power_increasing) simp_all
  have a': "(2::rat) ^ 970 \<le> 2 ^ 1022" by (rule power_increasing) simp_all
  have b: "(2::rat) ^ 20 \<le> 2 ^ 1022" by (rule power_increasing) simp_all
  have c: "(1000000::rat) < 2 ^ 20" by simp
  have "(2::rat) ^ Suc (Suc 1022) = 2 * (2 * 2 ^ 1022)" by (simp only: power_Suc)
  moreover have "Suc (Suc 1022) = 1024" by simp
  ultimately have d: "(2::rat) ^ 1024 = 2 * (2 * 2 ^ 1022)" by (simp only:)
  have "\<And>x y y' z::rat. y \<le> x \<Longrightarrow> y' \<le> x \<Longrightarrow> z \<le> x \<Longrightarrow> 1000000 < z \<Longrightarrow>
      1000000 < 2 * (2 * x) - y - y'" by linarith
  from this[OF a a' b c] show ?thesis by (simp only: MAX_VALUE_def MAX_VALUE_HALF_ULP_def d)
qed

lemma js_round_sum_small: "s \<le> 1000000 \<Longrightarrow> js_round_sum s = Fin s"
  using MAX_VALUE_room by (intro js_round_sum_exact) linarith

lemma MAX_VALUE_gt: "1000000 < MAX_VALUE"
  using MAX_VALUE_room half_ulp_pos by linarith



lemma ex_match:
  "findMatchingOrder ex_resting
     [(0::nat, ex_desired 100.05 1), (1, ex_desired 100.0005 1.02)] (1 / 1000) (1 / 10)
   = Some (0, ex_desired 100.05 1)"
  using MAX_VALUE_gt
  by (simp add: findMatchingOrder_def sameTypeOrders_def matchStep_def compareOrders_def
      ex_resting_def ex_desired_def truthy_def js_abs_div_def js_round_sum_small Let_def)



lemma near_arith:
  fixes P h x :: rat
  assumes "8 * h \<le> P" "4 \<le> h" "2 < x" "x < h"
  shows "1 \<le> P - 4 * h" "1 \<le> h + x"
    "(P - 2 * h) - h < (P - 4 * h) + (h + x) - 2"
    "(P - 4 * h) + (h + x) - 2 < (P - 2 * h) + h"
    "(P - 2 * h) - h < (P - 4 * h) + (h + x)"
    "(P - 4 * h) + (h + x) < (P - 2 * h) + h"
    "(P - 4 * h) + (h + x) < P - 2 * h"
  using assms by linarith+

lemma near_facts:
  "1 \<le> cx_maxPrice" "1 \<le> cx_maxSize"
  "MAX_VALUE - MAX_VALUE_HALF_ULP < cx_maxPrice + cx_maxSize - 2"
  "cx_maxPrice + cx_maxSize - 2 < MAX_VALUE + MAX_VALUE_HALF_ULP"
  "MAX_VALUE - MAX_VALUE_HALF_ULP < cx_maxPrice + cx_maxSize"
  "cx_maxPrice + cx_maxSize < MAX_VALUE + MAX_VALUE_HALF_ULP"
  "cx_maxPrice + cx_maxSize < MAX_VALUE"
proof -
  define h :: rat where "h = 2 ^ 970"
  define x :: rat where "x = 2 ^ 918"
  define P :: rat where "P = 2 ^ 1024"
  have "(2::rat) ^ Suc (Suc 970) = 2 * (2 * 2 ^ 970)" by (simp only: power_Suc)
  moreover have "Suc (Suc 970) = 972" "Suc 970 = 971" by simp_all
  moreover have "(2::rat) ^ Suc 970 = 2 * 2 ^ 970" by (simp only: power_Suc)
  ultimately have e: "(2::rat) ^ 972 = 4 * h" "(2::rat) ^ 971 = 2 * h"
    unfolding h_def by simp_all
  have "(2::rat) ^ Suc (Suc (Suc 970)) = 2 * (2 * (2 * 2 ^ 970))" by (simp only: power_Suc)
  moreover have "Suc (Suc (Suc 970)) = 973" by simp
  ultimately have "(2::rat) ^ 973 = 8 * h" unfolding h_def by simp
  moreover have "(2::rat) ^ 973 \<le> 2 ^ 1024" by (rule power_increasing) simp_all
  ultimately have a1: "8 * h \<le> P" unfolding P_def by simp
  have "(2::rat) ^ 2 \<le> 2 ^ 970" by (rule power_increasing) simp_all
  then have a2: "4 \<le> h" unfolding h_def by simp
  have "(2::rat) ^ 1 < 2 ^ 918" by (rule power_strict_increasing) simp_all
  then have a3: "2 < x" unfolding x_def by simp
  have a4: "x < h" unfolding x_def h_def by (rule power_strict_increasing) simp_all
  have mv: "MAX_VALUE = P - 2 * h" by (simp only: MAX_VALUE_def e P_def)
  have hu: "MAX_VALUE_HALF_ULP = h" by (simp only: MAX_VALUE_HALF_ULP_def h_def)
  have mp: "cx_maxPrice = P - 4 * h" by (simp only: cx_maxPrice_def e P_def)
  have ms: "cx_maxSize = h + x" by (simp only: cx_maxSize_def h_def x_def)
  note n = near_arith[OF a1 a2 a3 a4]
  show "1 \<le> cx_maxPrice" "1 \<le> cx_maxSize"
    "MAX_VALUE - MAX_VALUE_HALF_ULP < cx_maxPrice + cx_maxSize - 2"
    "cx_maxPrice + cx_maxSize - 2 < MAX_VALUE + MAX_VALUE_HALF_ULP"
    "MAX_VALUE - MAX_VALUE_HALF_ULP < cx_maxPrice + cx_maxSize"
    "cx_maxPrice + cx_maxSize < MAX_VALUE + MAX_VALUE_HALF_ULP"
    "cx_maxPrice + cx_maxSize < MAX_VALUE"
    unfolding mv hu mp ms using n by simp_all
qed

lemma near_dev:
  "priceDeviation (compareOrders cx_resting cx_near) = Fin (cx_maxPrice - 1)"
  "sizeDeviation (compareOrders cx_resting cx_near) = Fin (cx_maxSize - 1)"
  using near_facts(1,2)
  by (simp_all add: compareOrders_def cx_resting_def cx_near_def ex_resting_def ex_desired_def
      truthy_def js_abs_div_def)

lemma near_same: "side cx_near = side cx_resting" "otype cx_near = otype cx_resting"
  by (simp_all add: cx_resting_def cx_near_def ex_resting_def ex_desired_def)

lemma js_round_sum_top:
  "MAX_VALUE - MAX_VALUE_HALF_ULP < s \<Longrightarrow> s < MAX_VALUE + MAX_VALUE_HALF_ULP \<Longrightarrow>
     js_round_sum s = Fin MAX_VALUE"
  by (simp add: js_round_sum_def)

lemma near_round:
  "js_round_sum (cx_maxPrice + cx_maxSize - 2) = Fin MAX_VALUE"
  "js_round_sum (cx_maxPrice + cx_maxSize) = Fin MAX_VALUE"
  using near_facts(3,4,5,6) by (simp_all add: js_round_sum_top)

text \<open>
  The rounding of the sum decides the comparison with the sentinel in the same way as an
  overflow does. The thresholds \<open>2 ^ 1024 - 2 ^ 972\<close> and \<open>2 ^ 970 + 2 ^ 918\<close> are doubles
  whose exact sum is below \<^verbatim>\<open>Number.MAX_VALUE\<close>, but the sum the code computes rounds to
  \<^verbatim>\<open>Number.MAX_VALUE\<close>. A candidate whose price and size are these two numbers, for a
  resting order of price 1 and size 1, is eligible, the sum of its deviations rounds to
  \<^verbatim>\<open>Number.MAX_VALUE\<close> too, and the matcher returns none.
\<close>

lemma findMatchingOrder_rounding_example:
  "cx_maxPrice + cx_maxSize < MAX_VALUE \<and>
   \<not> js_less (js_add (Fin cx_maxPrice) (Fin cx_maxSize)) (Fin MAX_VALUE) \<and>
   eligible cx_resting cx_maxPrice cx_maxSize cx_near \<and>
   findMatchingOrder cx_resting [(0::nat, cx_near)] cx_maxPrice cx_maxSize = None"
proof -
  have a: "\<not> js_less (js_add (Fin cx_maxPrice) (Fin cx_maxSize)) (Fin MAX_VALUE)"
    by (simp add: near_round)
  have b: "eligible cx_resting cx_maxPrice cx_maxSize cx_near"
    by (simp add: eligible_def withinThresholds_def near_dev near_same)
  have c: "findMatchingOrder cx_resting [(0::nat, cx_near)] cx_maxPrice cx_maxSize = None"
    by (simp add: findMatchingOrder_def sameTypeOrders_def matchStep_def near_dev near_same
        near_round Let_def)
  from near_facts(7) a b c show ?thesis by blast
qed





text \<open>
  C10: \<^verbatim>\<open>compareOrders\<close> tests the two prices for truthiness, so the price deviation is 1
  when either price is missing and also when either price is 0. Hence, for every maximal
  price deviation below 1, an order that \<^verbatim>\<open>findMatchingOrder\<close> returns has a price
  that is present and not 0, and so has the resting order it was matched with.
\<close>

theorem compareOrders_falsy_price:
  "((price existing = None \<or> price existing = Some 0 \<or> price cand = None \<or> price cand = Some 0)
      \<longrightarrow> priceDeviation (compareOrders existing cand) = Fin 1) \<and>
   (maxPriceDeviation < 1 \<longrightarrow>
      findMatchingOrder existing cs maxPriceDeviation maxSizeDeviation = Some c \<longrightarrow>
      (\<exists>p q. price existing = Some p \<and> p \<noteq> 0 \<and> price (snd c) = Some q \<and> q \<noteq> 0))"
proof (intro conjI impI)
  assume "price existing = None \<or> price existing = Some 0 \<or> price cand = None \<or>
          price cand = Some 0"
  then show "priceDeviation (compareOrders existing cand) = Fin 1"
    by (auto simp: compareOrders_def truthy_def)
next
  assume lt: "maxPriceDeviation < 1"
    and r: "findMatchingOrder existing cs maxPriceDeviation maxSizeDeviation = Some c"
  from findMatchingOrder_sound[OF r]
  have le: "js_le (priceDeviation (compareOrders existing (snd c))) (Fin maxPriceDeviation)"
    by (simp add: eligible_def withinThresholds_def)
  have "truthy (price existing) \<and> truthy (price (snd c))"
  proof (rule ccontr)
    assume "\<not> (truthy (price existing) \<and> truthy (price (snd c)))"
    then have "priceDeviation (compareOrders existing (snd c)) = Fin 1"
      by (auto simp: compareOrders_def)
    with le lt show False by simp
  qed
  then show "\<exists>p q. price existing = Some p \<and> p \<noteq> 0 \<and> price (snd c) = Some q \<and> q \<noteq> 0"
    by (auto simp: truthy_def split: option.splits)
qed

theorem compareOrders_falsy_price_witness:
  "price (ex_desired 0 1) = Some 0 \<and>
   priceDeviation (compareOrders ex_resting (ex_desired 0 1)) = Fin 1 \<and>
   (1 / 1000 :: rat) < 1 \<and>
   findMatchingOrder ex_resting
     [(0::nat, ex_desired 100.05 1), (1, ex_desired 100.0005 1.02)] (1 / 1000) (1 / 10)
     = Some (0, ex_desired 100.05 1) \<and>
   (\<exists>p q. price ex_resting = Some p \<and> p \<noteq> 0 \<and> price (ex_desired 100.05 1) = Some q \<and> q \<noteq> 0)"
proof -
  have a: "price (ex_desired 0 1) = Some 0" by (simp add: ex_desired_def)
  have b: "(1 / 1000 :: rat) < 1" by simp
  from compareOrders_falsy_price[of ex_resting "ex_desired 0 1"] a
  have c: "priceDeviation (compareOrders ex_resting (ex_desired 0 1)) = Fin 1" by blast
  from compareOrders_falsy_price[of ex_resting "ex_desired 0 1" "1 / 1000"
      "[(0::nat, ex_desired 100.05 1), (1, ex_desired 100.0005 1.02)]" "1 / 10"
      "(0, ex_desired 100.05 1)"] b ex_match
  have "\<exists>p q. price ex_resting = Some p \<and> p \<noteq> 0 \<and> price (ex_desired 100.05 1) = Some q \<and> q \<noteq> 0"
    by simp
  with a b c ex_match show ?thesis by simp
qed

section \<open>Order reconciliation\<close>


lemma classifyStep_mset:
  "mset (ordersToKeep (classifyStep r g n st e)) + mset (ordersToCancel (classifyStep r g n st e))
     = mset (ordersToKeep st) + mset (ordersToCancel st) + {#e#}"
  by (simp add: classifyStep_def split: option.split)

lemma classify_fold_mset:
  "mset (ordersToKeep (foldl (classifyStep r g n) st es)) +
   mset (ordersToCancel (foldl (classifyStep r g n) st es))
     = mset (ordersToKeep st) + mset (ordersToCancel st) + mset es"
  by (induction es arbitrary: st) (simp_all add: classifyStep_mset)

lemma classify_partition:
  "mset (ordersToKeep (classify r g n active)) + mset (ordersToCancel (classify r g n active))
     = mset active"
  by (simp add: classify_def classify_fold_mset)

lemma wellFormed_distinct: "wellFormed m \<Longrightarrow> distinct m"
  by (simp add: wellFormed_def distinct_map)

lemma classify_sets:
  assumes "wellFormed active"
  shows "set (ordersToKeep (classify r g n active)) \<union> set (ordersToCancel (classify r g n active))
           = set active"
    and "set (ordersToKeep (classify r g n active)) \<inter> set (ordersToCancel (classify r g n active))
           = {}"
proof -
  let ?k = "ordersToKeep (classify r g n active)" and ?c = "ordersToCancel (classify r g n active)"
  have m: "mset (?k @ ?c) = mset active" using classify_partition[of r g n active] by simp
  then have "set (?k @ ?c) = set active" by (rule mset_eq_setD)
  then show "set ?k \<union> set ?c = set active" by simp
  from m wellFormed_distinct[OF assms] have "distinct (?k @ ?c)"
    by (metis mset_eq_imp_distinct_iff)
  then show "set ?k \<inter> set ?c = {}" by simp
qed

lemma delete_fold:
  "\<forall>e\<in>set cs. fst e \<noteq> [] \<Longrightarrow>
   foldl (\<lambda>m e. if fst e \<noteq> [] then map_delete (fst e) m else m) active cs
     = filter (\<lambda>e. fst e \<notin> fst ` set cs) active"
proof (induction cs arbitrary: active)
  case Nil
  then show ?case by simp
next
  case (Cons c cs)
  then show ?case by (simp add: map_delete_def conj_commute)
qed

lemma key_unique:
  "distinct (map fst m) \<Longrightarrow> e \<in> set m \<Longrightarrow> e' \<in> set m \<Longrightarrow> fst e = fst e' \<Longrightarrow> e = e'"
  by (cases e, cases e') (auto dest: eq_key_imp_eq_value)

lemma orderIds_nonempty:
  assumes "cs \<noteq> []" and "\<forall>e\<in>set cs. oid (snd e) = Some (fst e)"
  shows "orderIdsToCancel cs \<noteq> []"
proof -
  from assms(1) obtain c cs' where "cs = c # cs'" by (cases cs) auto
  with assms(2) show ?thesis by (simp add: orderIdsToCancel_def List.map_filter_simps)
qed

lemma cancelStep_set:
  assumes wf: "wellFormed active" and sub: "set cs \<subseteq> set active"
  shows "set (fst (cancelStep ok cs active)) = (if ok then set active - set cs else set active)"
proof (cases "cs = []")
  case True
  then show ?thesis by (simp add: cancelStep_def)
next
  case False
  from wf sub have ne: "\<forall>e\<in>set cs. fst e \<noteq> []" and ids: "\<forall>e\<in>set cs. oid (snd e) = Some (fst e)"
    by (auto simp: wellFormed_def)
  from wf have d: "distinct (map fst active)" by (simp add: wellFormed_def)
  have "\<And>e. e \<in> set active \<Longrightarrow> (fst e \<in> fst ` set cs) = (e \<in> set cs)"
  proof
    fix e assume e: "e \<in> set active" and "fst e \<in> fst ` set cs"
    then obtain e' where e': "e' \<in> set cs" "fst e = fst e'" by auto
    with sub have "e' \<in> set active" by auto
    from key_unique[OF d e this e'(2)] e'(1) show "e \<in> set cs" by simp
  next
    fix e :: "string \<times> Order" assume "e \<in> set cs"
    then show "fst e \<in> fst ` set cs" by simp
  qed
  then have "set (filter (\<lambda>e. fst e \<notin> fst ` set cs) active) = set active - set cs"
    by auto
  with False orderIds_nonempty[OF False ids] delete_fold[OF ne, of active]
  show ?thesis by (simp add: cancelStep_def)
qed


lemma placeStep_recorded:
  "placeStep submit (a, c, n) ord =
     ((case recorded (submit n) ord of None \<Rightarrow> a | Some e \<Rightarrow> map_set (fst e) (snd e) a),
      c @ [SubmitOrder (flashnetOrder ord)], Suc n)"
  by (simp add: placeStep_def recorded_def split: SubmitResult.split list.split)

lemma place_fold:
  assumes "distinct (map fst (List.map_filter (\<lambda>(n, order). recorded (submit n) order)
             (enumerate n ords)))"
    and "fst ` set (List.map_filter (\<lambda>(n, order). recorded (submit n) order)
             (enumerate n ords)) \<inter> fst ` set a = {}"
  shows "foldl (placeStep submit) (a, c, n) ords =
           (a @ List.map_filter (\<lambda>(n, order). recorded (submit n) order) (enumerate n ords),
            c @ map (\<lambda>ord. SubmitOrder (flashnetOrder ord)) ords, n + length ords)"
  using assms
proof (induction ords arbitrary: a c n)
  case Nil
  then show ?case by (simp add: List.map_filter_simps)
next
  case (Cons x xs)
  show ?case
  proof (cases "recorded (submit n) x")
    case None
    with Cons.prems have "distinct (map fst (List.map_filter (\<lambda>(n, order). recorded (submit n) order)
             (enumerate (Suc n) xs)))"
      and "fst ` set (List.map_filter (\<lambda>(n, order). recorded (submit n) order)
             (enumerate (Suc n) xs)) \<inter> fst ` set a = {}"
      by (simp_all add: List.map_filter_simps)
    from Cons.IH[OF this] None show ?thesis
      by (simp add: placeStep_recorded List.map_filter_simps)
  next
    case (Some e)
    let ?rest = "List.map_filter (\<lambda>(n, order). recorded (submit n) order) (enumerate (Suc n) xs)"
    from Some Cons.prems have d: "distinct (map fst ?rest)" and nin: "fst e \<notin> fst ` set ?rest"
      and fresh: "fst e \<notin> fst ` set a" and dis: "fst ` set ?rest \<inter> fst ` set a = {}"
      by (auto simp: List.map_filter_simps)
    have ms: "map_set (fst e) (snd e) a = a @ [e]" using fresh by (simp add: map_set_def)
    have "fst ` set ?rest \<inter> fst ` set (a @ [e]) = {}" using dis nin by auto
    from Cons.IH[OF d this] Some ms show ?thesis
      by (simp add: placeStep_recorded List.map_filter_simps)
  qed
qed

lemma delete_fold_filter:
  "\<exists>P. foldl (\<lambda>m e. if fst e \<noteq> [] then map_delete (fst e) m else m) active cs = filter P active"
proof (induction cs arbitrary: active)
  case Nil
  have "active = filter (\<lambda>_. True) active" by simp
  then show ?case by (simp del: filter_True) blast
next
  case (Cons c cs)
  show ?case
  proof (cases "fst c \<noteq> []")
    case True
    from Cons[of "map_delete (fst c) active"] obtain P where
      "foldl (\<lambda>m e. if fst e \<noteq> [] then map_delete (fst e) m else m) (map_delete (fst c) active) cs
         = filter P (map_delete (fst c) active)" by blast
    with True have "foldl (\<lambda>m e. if fst e \<noteq> [] then map_delete (fst e) m else m) active (c # cs)
         = filter (\<lambda>x. fst x \<noteq> fst c \<and> P x) active" by (simp add: map_delete_def)
    then show ?thesis by blast
  next
    case False
    with Cons[of active] show ?thesis by simp
  qed
qed

lemma cancelStep_filter: "\<exists>P. fst (cancelStep ok cs active) = filter P active"
proof -
  have "active = filter (\<lambda>_. True) active" by simp
  then have t: "\<exists>P. active = filter P active" by blast
  show ?thesis using t delete_fold_filter[of active cs] by (simp add: cancelStep_def)
qed

lemma recorded_Some:
  "recorded res ord = Some e \<Longrightarrow>
     fst e \<noteq> [] \<and> oid (snd e) = Some (fst e) \<and> status (snd e) = Some New"
  by (auto simp: recorded_def split: SubmitResult.splits list.splits if_splits)

lemma map_filter_member:
  "y \<in> set (List.map_filter f xs) \<Longrightarrow> \<exists>x\<in>set xs. f x = Some y"
  by (auto simp: List.map_filter_def)

lemma placedEntries_wf:
  assumes "e \<in> set (placedEntries submit ords)"
  shows "fst e \<noteq> [] \<and> oid (snd e) = Some (fst e)"
proof -
  from assms obtain x where "(case x of (n, order) \<Rightarrow> recorded (submit n) order) = Some e"
    unfolding placedEntries_def by (blast dest: map_filter_member)
  then have "recorded (submit (fst x)) (snd x) = Some e" by (simp add: case_prod_beta)
  then show ?thesis using recorded_Some by blast
qed

lemma manageOrders_unfold:
  "manageOrders ratio rnd cancelOk submit active newOrders =
     (let p1 = classify (orDefault ratio 0) rnd newOrders active;
          c1 = cancelStep cancelOk (ordersToCancel p1) active;
          ordersToPlace = map snd (unmatched (matchedNewOrders p1) newOrders);
          f = foldl (placeStep submit) (fst c1, [], 0) ordersToPlace
      in \<lparr> active' = fst f, calls = snd c1 @ fst (snd f), kept = ordersToKeep p1,
           cancelled = ordersToCancel p1, toPlace = ordersToPlace \<rparr>)"
  by (simp add: manageOrders_def Let_def split: prod.split)

lemma manageOrders_map:
  assumes r: "r = manageOrders ratio rnd cancelOk submit active newOrders"
    and wf: "wellFormed active"
    and d: "distinct (map fst (placedEntries submit (toPlace r)))"
    and fresh: "fst ` set (placedEntries submit (toPlace r)) \<inter> fst ` set active = {}"
  shows "set (active' r) = set (kept r) \<union> (if cancelOk then {} else set (cancelled r)) \<union>
           set (placedEntries submit (toPlace r))"
    and "set (kept r) \<union> set (cancelled r) = set active"
    and "set (kept r) \<inter> set (cancelled r) = {}"
    and "wellFormed (active' r)"
proof -
  let ?p1 = "classify (orDefault ratio 0) rnd newOrders active"
  let ?c1 = "cancelStep cancelOk (ordersToCancel ?p1) active"
  let ?ords = "map snd (unmatched (matchedNewOrders ?p1) newOrders)"
  have k: "kept r = ordersToKeep ?p1" and c: "cancelled r = ordersToCancel ?p1"
    and tp: "toPlace r = ?ords"
    unfolding r manageOrders_unfold by (simp_all add: Let_def)
  from classify_sets[OF wf] show un: "set (kept r) \<union> set (cancelled r) = set active"
    and int: "set (kept r) \<inter> set (cancelled r) = {}" unfolding k c by blast+
  have sub: "set (ordersToCancel ?p1) \<subseteq> set active" using un c by auto
  have s1: "set (fst ?c1) = (if cancelOk then set active - set (cancelled r) else set active)"
    using cancelStep_set[OF wf sub] c by simp
  have s1sub: "set (fst ?c1) \<subseteq> set active" using s1 by (auto split: if_splits)
  let ?pe = "List.map_filter (\<lambda>(n, order). recorded (submit n) order) (enumerate 0 ?ords)"
  have pe: "placedEntries submit (toPlace r) = ?pe" by (simp add: placedEntries_def tp)
  have "fst ` set ?pe \<inter> fst ` set (fst ?c1) = {}" using fresh s1sub pe by auto
  from place_fold[OF d[unfolded pe] this, of "[]"]
  have f: "fst (foldl (placeStep submit) (fst ?c1, [], 0) ?ords) = fst ?c1 @ ?pe" by simp
  have a: "active' r = fst ?c1 @ placedEntries submit (toPlace r)"
    unfolding r manageOrders_unfold pe[symmetric, unfolded tp] using f pe tp by (simp add: Let_def)
  show "set (active' r) = set (kept r) \<union> (if cancelOk then {} else set (cancelled r)) \<union>
           set (placedEntries submit (toPlace r))"
    unfolding a using s1 un int by auto
  obtain P where P: "fst ?c1 = filter P active" using cancelStep_filter by blast
  from wf have "distinct (map fst (fst ?c1))" unfolding P
    by (simp add: wellFormed_def distinct_map_filter)
  moreover have "fst ` set (fst ?c1) \<inter> fst ` set (placedEntries submit (toPlace r)) = {}"
    using fresh s1sub by auto
  moreover have "\<forall>e\<in>set (fst ?c1). fst e \<noteq> [] \<and> oid (snd e) = Some (fst e)"
    using wf s1sub by (auto simp: wellFormed_def)
  ultimately show "wellFormed (active' r)"
    unfolding a using d placedEntries_wf by (auto simp: wellFormed_def)
qed


lemma classify_snoc:
  "classify r g n (pre @ [e]) = classifyStep r g n (classify r g n pre) e"
  by (simp add: classify_def)

lemma classify_append:
  "classify r g n (pre @ e # post) =
     foldl (classifyStep r g n) (classifyStep r g n (classify r g n pre) e) post"
  by (simp add: classify_def)

lemma classifyStep_keptWith:
  "classifyStep r g n (classify r g n pre) e =
     (if \<exists>m. keptWith r g n pre e m
      then (classify r g n pre)\<lparr> ordersToKeep := ordersToKeep (classify r g n pre) @ [e],
             matchedNewOrders :=
               fst (the (findMatchingOrder (snd e)
                      (unmatched (matchedNewOrders (classify r g n pre)) n)
                      maxPriceDeviation0 maxSizeDeviation0))
               # matchedNewOrders (classify r g n pre),
             drawn := Suc (drawn (classify r g n pre)) \<rparr>
      else (classify r g n pre)\<lparr> ordersToCancel := ordersToCancel (classify r g n pre) @ [e],
             drawn := (case findMatchingOrder (snd e)
                      (unmatched (matchedNewOrders (classify r g n pre)) n)
                      maxPriceDeviation0 maxSizeDeviation0 of None \<Rightarrow> drawn (classify r g n pre)
                       | Some _ \<Rightarrow> Suc (drawn (classify r g n pre))) \<rparr>)"
  by (simp add: classifyStep_def keptWith_def split: option.split)

lemma classifyStep_mono:
  "set (ordersToKeep st) \<subseteq> set (ordersToKeep (classifyStep r g n st e))"
  "set (ordersToCancel st) \<subseteq> set (ordersToCancel (classifyStep r g n st e))"
  by (auto simp: classifyStep_def split: option.split)

lemma classify_fold_mono:
  "set (ordersToKeep st) \<subseteq> set (ordersToKeep (foldl (classifyStep r g n) st es)) \<and>
   set (ordersToCancel st) \<subseteq> set (ordersToCancel (foldl (classifyStep r g n) st es))"
proof (induction es arbitrary: st)
  case Nil
  then show ?case by simp
next
  case (Cons e es)
  from Cons[of "classifyStep r g n st e"] classifyStep_mono[of st r g n e]
  show ?case by auto
qed

lemma classify_kept_iff:
  assumes wf: "wellFormed active" and dec: "active = pre @ entry # post"
  shows "(entry \<in> set (ordersToKeep (classify r g n active)) \<longleftrightarrow> (\<exists>m. keptWith r g n pre entry m)) \<and>
         (entry \<in> set (ordersToCancel (classify r g n active)) \<longleftrightarrow>
            \<not> (\<exists>m. keptWith r g n pre entry m))"
proof -
  let ?k = "ordersToKeep (classify r g n active)" and ?c = "ordersToCancel (classify r g n active)"
  let ?s1 = "classifyStep r g n (classify r g n pre) entry"
  have fin: "classify r g n active = foldl (classifyStep r g n) ?s1 post"
    unfolding dec by (rule classify_append)
  have dis: "set ?k \<inter> set ?c = {}" using classify_sets(2)[OF wf] .
  show ?thesis
  proof (cases "\<exists>m. keptWith r g n pre entry m")
    case True
    then have "entry \<in> set (ordersToKeep ?s1)" by (simp add: classifyStep_keptWith)
    with classify_fold_mono[of ?s1 r g n post] have "entry \<in> set ?k" unfolding fin by blast
    with dis True show ?thesis by blast
  next
    case False
    then have "entry \<in> set (ordersToCancel ?s1)" by (simp add: classifyStep_keptWith)
    with classify_fold_mono[of ?s1 r g n post] have "entry \<in> set ?c" unfolding fin by blast
    with dis False show ?thesis by blast
  qed
qed

lemma snoc_decomp:
  "(xs @ [x] = p @ e # q) \<longleftrightarrow>
     (q = [] \<and> p = xs \<and> e = x) \<or> (\<exists>q'. q = q' @ [x] \<and> xs = p @ e # q')"
  by (cases q rule: rev_cases) auto

lemma claimed_Nil: "claimed r g n [] = {}"
  by (simp add: claimed_def)

lemma claimed_snoc:
  "claimed r g n (xs @ [x]) = claimed r g n xs \<union> {i. \<exists>m. keptWith r g n xs x m \<and> fst m = i}"
  unfolding claimed_def snoc_decomp by blast

lemma classify_claimed:
  "set (matchedNewOrders (classify r g n es)) = claimed r g n es"
proof (induction es rule: rev_induct)
  case Nil
  then show ?case by (simp add: claimed_Nil classify_def)
next
  case (snoc x xs)
  show ?case
  proof (cases "\<exists>m. keptWith r g n xs x m")
    case True
    then obtain m where m: "keptWith r g n xs x m" by blast
    then have u: "\<And>m'. keptWith r g n xs x m' \<longleftrightarrow> m' = m" by (auto simp: keptWith_def)
    have "findMatchingOrder (snd x) (unmatched (matchedNewOrders (classify r g n xs)) n)
            maxPriceDeviation0 maxSizeDeviation0 = Some m" using m by (simp add: keptWith_def)
    with True have "matchedNewOrders (classify r g n (xs @ [x])) =
        fst m # matchedNewOrders (classify r g n xs)"
      by (simp add: classify_snoc classifyStep_keptWith)
    then show ?thesis using snoc.IH by (simp add: claimed_snoc u)
  next
    case False
    then have "matchedNewOrders (classify r g n (xs @ [x])) = matchedNewOrders (classify r g n xs)"
      by (simp add: classify_snoc classifyStep_keptWith)
    with False show ?thesis using snoc.IH by (simp add: claimed_snoc)
  qed
qed


lemma manageOrders_step1:
  assumes r: "r = manageOrders ratio rnd cancelOk submit active newOrders"
    and wf: "wellFormed active"
  shows "\<forall>pre entry post. active = pre @ entry # post \<longrightarrow>
           (entry \<in> set (kept r) \<longleftrightarrow>
              (\<exists>m. keptWith (orDefault ratio 0) rnd newOrders pre entry m)) \<and>
           (entry \<in> set (cancelled r) \<longleftrightarrow>
              \<not> (\<exists>m. keptWith (orDefault ratio 0) rnd newOrders pre entry m))"
    and "toPlace r =
           map snd (filter (\<lambda>d. fst d \<notin> claimed (orDefault ratio 0) rnd newOrders active)
                      (enumerate 0 newOrders))"
proof -
  let ?p1 = "classify (orDefault ratio 0) rnd newOrders active"
  have k: "kept r = ordersToKeep ?p1" and c: "cancelled r = ordersToCancel ?p1"
    and tp: "toPlace r = map snd (unmatched (matchedNewOrders ?p1) newOrders)"
    unfolding r manageOrders_unfold by (simp_all add: Let_def)
  show "\<forall>pre entry post. active = pre @ entry # post \<longrightarrow>
           (entry \<in> set (kept r) \<longleftrightarrow>
              (\<exists>m. keptWith (orDefault ratio 0) rnd newOrders pre entry m)) \<and>
           (entry \<in> set (cancelled r) \<longleftrightarrow>
              \<not> (\<exists>m. keptWith (orDefault ratio 0) rnd newOrders pre entry m))"
    unfolding k c using classify_kept_iff[OF wf] by blast
  show "toPlace r =
           map snd (filter (\<lambda>d. fst d \<notin> claimed (orDefault ratio 0) rnd newOrders active)
                      (enumerate 0 newOrders))"
    unfolding tp by (simp add: unmatched_def classify_claimed)
qed






























lemmas ex_defs = ex_bid_def ex_desired_def ex_active_def ex_new_def ex_submit_def ex_half_def
  ex_zero_def cx_active_def cx_new_def pass1_init_def

lemmas match_defs = findMatchingOrder_def sameTypeOrders_def matchStep_def compareOrders_def
  truthy_def js_abs_div_def Let_def maxPriceDeviation0_def maxSizeDeviation0_def
  js_round_sum_small

lemma enumerate2: "enumerate 0 [a, b] = [(0, a), (1, b)]"
  by (simp add: enumerate_eq_zip upt_rec)

lemma ex_m1:
  "findMatchingOrder (ex_bid 100 1 ''a1'') (unmatched [] ex_new) maxPriceDeviation0 maxSizeDeviation0
     = Some (0, ex_desired 100.05 1)"
  using MAX_VALUE_gt
  by (simp add: unmatched_def ex_new_def enumerate2 ex_bid_def ex_desired_def match_defs)

lemma ex_m2:
  "findMatchingOrder (ex_bid 99 1 ''a2'') (unmatched [0] ex_new) maxPriceDeviation0 maxSizeDeviation0
     = None"
  using MAX_VALUE_gt
  by (simp add: unmatched_def ex_new_def enumerate2 ex_bid_def ex_desired_def match_defs)

lemma ex_classify:
  "classify 0 ex_half ex_new ex_active =
     \<lparr> matchedNewOrders = [0], ordersToKeep = [(''a1'', ex_bid 100 1 ''a1'')],
       ordersToCancel = [(''a2'', ex_bid 99 1 ''a2'')], drawn = 1 \<rparr>"
  by (simp add: classify_def ex_active_def classifyStep_def ex_m1 ex_m2 ex_half_def)

lemma ex_unmatched: "unmatched [0] ex_new = [(1, ex_desired 98 1)]"
  by (simp add: unmatched_def ex_new_def enumerate2)

lemma ex_set_b1:
  "map_set ''b1'' v ex_active = ex_active @ [(''b1'', v)]"
  by (simp add: map_set_def ex_active_def)

lemma ex_cycle:
  "manageOrders (Some 0) ex_half False ex_submit ex_active ex_new =
     \<lparr> active' = ex_active @ [(''b1'', (ex_desired 98 1)\<lparr>oid := Some ''b1'', status := Some New\<rparr>)],
       calls = [CancelOrders [''a2''], SubmitOrder (flashnetOrder (ex_desired 98 1))],
       kept = [(''a1'', ex_bid 100 1 ''a1'')],
       cancelled = [(''a2'', ex_bid 99 1 ''a2'')],
       toPlace = [ex_desired 98 1] \<rparr>"
proof -
  have o: "orderIdsToCancel [(''a2'', ex_bid 99 1 ''a2'')] = [''a2'']"
    by (simp add: orderIdsToCancel_def ex_bid_def)
  show ?thesis
    by (simp add: manageOrders_unfold orDefault_def ex_classify cancelStep_def o
      ex_unmatched placeStep_def ex_submit_def ex_set_b1)
qed


text \<open>
  C1: after a reconcile cycle on a well-formed resting map (distinct non-empty keys, each
  order carrying its key as id, which every map the agent builds satisfies), where the
  venue returns ids that are distinct and not already keys of the map, the resting map
  holds exactly the orders marked keep, the orders marked cancel when the batch cancel
  failed (none of them when it succeeded), and the desired orders whose placement resolved
  with an id, under that id and with status new. The orders marked keep and the orders
  marked cancel partition the old map, and the new map is well-formed again. A desired
  order whose placement threw, or returned no id, is not in the map.

  A resting order is marked keep exactly when, on its turn in the order of the map, the
  matcher finds a match for it among the desired orders not yet claimed and its draw
  exceeds the ratio; otherwise, so in particular when it has no match, it is marked
  cancel. The claimed desired orders are exactly the matches of the orders marked keep,
  and the orders to place are the desired orders that are not claimed, in their order.
\<close>

theorem manageOrders_resting_map:
  assumes "r = manageOrders ratio rnd cancelOk submit active newOrders"
    and "wellFormed active"
    and "distinct (map fst (placedEntries submit (toPlace r)))"
    and "fst ` set (placedEntries submit (toPlace r)) \<inter> fst ` set active = {}"
  shows "set (active' r) = set (kept r) \<union> (if cancelOk then {} else set (cancelled r)) \<union>
           set (placedEntries submit (toPlace r)) \<and>
         set (kept r) \<union> set (cancelled r) = set active \<and>
         set (kept r) \<inter> set (cancelled r) = {} \<and>
         wellFormed (active' r) \<and>
         (\<forall>pre entry post. active = pre @ entry # post \<longrightarrow>
            (entry \<in> set (kept r) \<longleftrightarrow>
               (\<exists>m. keptWith (orDefault ratio 0) rnd newOrders pre entry m)) \<and>
            (entry \<in> set (cancelled r) \<longleftrightarrow>
               \<not> (\<exists>m. keptWith (orDefault ratio 0) rnd newOrders pre entry m))) \<and>
         (\<forall>es. set (matchedNewOrders (classify (orDefault ratio 0) rnd newOrders es)) =
                claimed (orDefault ratio 0) rnd newOrders es) \<and>
         toPlace r =
           map snd (filter (\<lambda>d. fst d \<notin> claimed (orDefault ratio 0) rnd newOrders active)
                      (enumerate 0 newOrders))"
  using manageOrders_map[OF assms] manageOrders_step1[OF assms(1,2)] classify_claimed
  by simp

lemma ex_cycle_fields:
  "kept (manageOrders (Some 0) ex_half ok ex_submit ex_active ex_new)
     = [(''a1'', ex_bid 100 1 ''a1'')]"
  "cancelled (manageOrders (Some 0) ex_half ok ex_submit ex_active ex_new)
     = [(''a2'', ex_bid 99 1 ''a2'')]"
  "toPlace (manageOrders (Some 0) ex_half ok ex_submit ex_active ex_new) = [ex_desired 98 1]"
  by (simp_all add: manageOrders_unfold orDefault_def ex_classify ex_unmatched Let_def)

lemma ex_keptWith:
  "keptWith 0 ex_half ex_new [] (''a1'', ex_bid 100 1 ''a1'') (0, ex_desired 100.05 1)"
  by (simp add: keptWith_def classify_def ex_m1 ex_half_def)

lemma ex_not_keptWith:
  "\<not> keptWith 0 ex_half ex_new [(''a1'', ex_bid 100 1 ''a1'')] (''a2'', ex_bid 99 1 ''a2'') m"
  by (simp add: keptWith_def classify_def classifyStep_def ex_m1 ex_m2 ex_half_def)

theorem manageOrders_resting_map_witness:
  "wellFormed ex_active \<and>
   distinct (map fst (placedEntries ex_submit [ex_desired 98 1])) \<and>
   fst ` set (placedEntries ex_submit [ex_desired 98 1]) \<inter> fst ` set ex_active = {} \<and>
   set (active' (manageOrders (Some 0) ex_half False ex_submit ex_active ex_new)) =
     {(''a1'', ex_bid 100 1 ''a1''), (''a2'', ex_bid 99 1 ''a2''),
      (''b1'', (ex_desired 98 1)\<lparr>oid := Some ''b1'', status := Some New\<rparr>)} \<and>
   set (active' (manageOrders (Some 0) ex_half True ex_submit ex_active ex_new)) =
     {(''a1'', ex_bid 100 1 ''a1''),
      (''b1'', (ex_desired 98 1)\<lparr>oid := Some ''b1'', status := Some New\<rparr>)} \<and>
   ex_active = [] @ (''a1'', ex_bid 100 1 ''a1'') # [(''a2'', ex_bid 99 1 ''a2'')] \<and>
   keptWith 0 ex_half ex_new [] (''a1'', ex_bid 100 1 ''a1'') (0, ex_desired 100.05 1) \<and>
   (''a1'', ex_bid 100 1 ''a1'')
     \<in> set (kept (manageOrders (Some 0) ex_half False ex_submit ex_active ex_new)) \<and>
   (\<forall>m. \<not> keptWith 0 ex_half ex_new [(''a1'', ex_bid 100 1 ''a1'')]
            (''a2'', ex_bid 99 1 ''a2'') m) \<and>
   (''a2'', ex_bid 99 1 ''a2'')
     \<in> set (cancelled (manageOrders (Some 0) ex_half False ex_submit ex_active ex_new))"
proof -
  let ?r = "manageOrders (Some 0) ex_half False ex_submit ex_active ex_new"
  let ?r' = "manageOrders (Some 0) ex_half True ex_submit ex_active ex_new"
  let ?a1 = "(''a1'', ex_bid 100 1 ''a1'')" and ?a2 = "(''a2'', ex_bid 99 1 ''a2'')"
  note flds = ex_cycle_fields
  have pe: "placedEntries ex_submit [ex_desired 98 1] =
      [(''b1'', (ex_desired 98 1)\<lparr>oid := Some ''b1'', status := Some New\<rparr>)]"
    by (simp add: placedEntries_def recorded_def ex_submit_def enumerate_eq_zip)
  have wf: "wellFormed ex_active" by (simp add: wellFormed_def ex_active_def ex_bid_def)
  have d: "distinct (map fst (placedEntries ex_submit (toPlace ?r)))"
    and d': "distinct (map fst (placedEntries ex_submit (toPlace ?r')))"
    by (simp_all add: flds pe)
  have f: "fst ` set (placedEntries ex_submit (toPlace ?r)) \<inter> fst ` set ex_active = {}"
    and f': "fst ` set (placedEntries ex_submit (toPlace ?r')) \<inter> fst ` set ex_active = {}"
    unfolding flds pe by (simp_all add: ex_active_def)
  have d1: "ex_active = [] @ ?a1 # [?a2]" and d2: "ex_active = [?a1] @ ?a2 # []"
    by (simp_all add: ex_active_def)
  have r0: "orDefault (Some 0) (0::rat) = 0" by (simp add: orDefault_def)
  note t = manageOrders_resting_map[OF refl wf d f, unfolded r0]
  note t' = manageOrders_resting_map[OF refl wf d' f', unfolded r0]
  from t have "set (active' ?r) = set (kept ?r) \<union> set (cancelled ?r) \<union>
      set (placedEntries ex_submit (toPlace ?r))" by simp
  then have m: "set (active' ?r) = {?a1, ?a2,
      (''b1'', (ex_desired 98 1)\<lparr>oid := Some ''b1'', status := Some New\<rparr>)}"
    unfolding flds pe by auto
  from t' have "set (active' ?r') = set (kept ?r') \<union>
      set (placedEntries ex_submit (toPlace ?r'))" by simp
  then have m': "set (active' ?r') = {?a1,
      (''b1'', (ex_desired 98 1)\<lparr>oid := Some ''b1'', status := Some New\<rparr>)}"
    unfolding flds pe by auto
  from t d1 ex_keptWith have k1: "?a1 \<in> set (kept ?r)" by blast
  from t d2 ex_not_keptWith have c2: "?a2 \<in> set (cancelled ?r)" by blast
  from d f have "distinct (map fst (placedEntries ex_submit [ex_desired 98 1]))"
    "fst ` set (placedEntries ex_submit [ex_desired 98 1]) \<inter> fst ` set ex_active = {}"
    by (simp_all add: flds)
  with wf m m' d1 ex_keptWith k1 ex_not_keptWith c2 show ?thesis by simp
qed











section \<open>Ladder generation\<close>


lemmas ladder_defs = makerQuotes_def makerTargets_def targetPrices_def spreadOf_def
  generateOrders_def ladderLevel_def bidPriceAt_def askPriceAt_def sizeAt_def levelFactor_def
  quote_def roundToDecimalPlaces_def Math_round_def applyVariance_def getRandomArbitrary_def
  orDefault_def truthy_def Let_def

lemma round_mono: "x \<le> y \<Longrightarrow> roundToDecimalPlaces x n \<le> roundToDecimalPlaces y n"
proof -
  assume xy: "x \<le> y"
  have p: "(0::rat) < 10 ^ n" by simp
  from xy p have "x * 10 ^ n + 1 / 2 \<le> y * 10 ^ n + 1 / 2" by simp
  then have "\<lfloor>x * 10 ^ n + 1 / 2\<rfloor> \<le> \<lfloor>y * 10 ^ n + 1 / 2\<rfloor>" by (rule floor_mono)
  then have "(of_int \<lfloor>x * 10 ^ n + 1 / 2\<rfloor> :: rat) \<le> of_int \<lfloor>y * 10 ^ n + 1 / 2\<rfloor>" by simp
  with p show ?thesis
    by (simp add: roundToDecimalPlaces_def Math_round_def Let_def divide_right_mono)
qed

lemma levelFactor_pos: "0 < levelFactor i"
  by (simp add: levelFactor_def add_pos_nonneg)

lemma prices_ordered:
  assumes "tb < ta"
  shows "bidPriceAt tb ta i \<le> askPriceAt tb ta i"
proof -
  have "0 \<le> of_nat i * ((ta - tb) / 2) * levelFactor i"
    using assms levelFactor_pos[of i] by simp
  then have "tb - of_nat i * ((ta - tb) / 2) * levelFactor i
           \<le> ta + of_nat i * ((ta - tb) / 2) * levelFactor i" using assms by linarith
  then show ?thesis unfolding bidPriceAt_def askPriceAt_def Let_def by (rule round_mono)
qed

lemma targetPrices_ordered:
  assumes "targetPrices m s = Some (tb, ta)"
  shows "tb < ta"
proof -
  define A where "A = m * (1 + s / 2)"
  define B where "B = m * (1 - s / 2)"
  define A' where "A' = A * (10001 / 10000)"
  define B' where "B' = B * (9999 / 10000)"
  have t: "targetPrices m s =
      (if B \<ge> A then (if B' \<ge> A' then None else Some (B', A')) else Some (B, A))"
    unfolding targetPrices_def A_def B_def A'_def B'_def Let_def by (rule refl)
  show ?thesis
  proof (cases "B \<ge> A")
    case False
    with assms t have "tb = B" "ta = A" by simp_all
    with False show ?thesis by simp
  next
    case True
    show ?thesis
    proof (cases "B' \<ge> A'")
      case True
      with \<open>B \<ge> A\<close> assms t show ?thesis by simp
    next
      case False
      with \<open>B \<ge> A\<close> assms t have "tb = B'" "ta = A'" by simp_all
      with False show ?thesis by simp
    qed
  qed
qed

lemma makerTargets_ordered: "makerTargets config ticker = Some (tb, ta) \<Longrightarrow> tb < ta"
  by (auto simp: makerTargets_def split: option.splits dest: targetPrices_ordered)

lemma ladderLevel_skip:
  "bidPriceAt tb ta i \<le> 0 \<Longrightarrow> ladderLevel symbol now rnd tb ta baseSize factor acc i = acc"
  by (simp add: ladderLevel_def)

lemma ladderLevel_emit:
  "0 < bidPriceAt tb ta i \<Longrightarrow>
   fst (ladderLevel symbol now rnd tb ta baseSize factor acc i) =
     fst acc @
     (if 0 < sizeAt (rnd (snd acc)) baseSize factor i
      then [quote symbol now Bid (bidPriceAt tb ta i) (sizeAt (rnd (snd acc)) baseSize factor i) i]
      else []) @
     (if 0 < sizeAt (rnd (Suc (snd acc))) baseSize factor i
      then [quote symbol now Ask (askPriceAt tb ta i)
              (sizeAt (rnd (Suc (snd acc))) baseSize factor i) i]
      else [])"
  by (simp add: ladderLevel_def Let_def)

lemma ladderLevel_member:
  assumes "ord \<in> set (fst (ladderLevel symbol now rnd tb ta baseSize factor acc i))"
  shows "ord \<in> set (fst acc) \<or> emittedAt tb ta i ord"
proof (cases "0 < bidPriceAt tb ta i")
  case False
  with assms show ?thesis by (simp add: ladderLevel_skip)
next
  case True
  from assms show ?thesis unfolding ladderLevel_emit[OF True]
    using True by (auto simp: emittedAt_def quote_def split: if_splits)
qed

lemma ladder_fold_member:
  "ord \<in> set (fst (foldl (ladderLevel symbol now rnd tb ta baseSize factor) acc levels)) \<Longrightarrow>
     ord \<in> set (fst acc) \<or> (\<exists>i\<in>set levels. emittedAt tb ta i ord)"
proof (induction levels arbitrary: acc)
  case Nil
  then show ?case by simp
next
  case (Cons i levels)
  from Cons.IH[of "ladderLevel symbol now rnd tb ta baseSize factor acc i"] Cons.prems
  have "ord \<in> set (fst (ladderLevel symbol now rnd tb ta baseSize factor acc i)) \<or>
        (\<exists>j\<in>set levels. emittedAt tb ta j ord)" by simp
  then show ?case using ladderLevel_member by fastforce
qed

lemma generateOrders_member:
  "ord \<in> set (fst (generateOrders symbol now rnd config tb ta)) \<Longrightarrow> \<exists>i. emittedAt tb ta i ord"
  unfolding generateOrders_def by (drule ladder_fold_member) auto

lemma emitted_price_pos:
  assumes "tb < ta" and "emittedAt tb ta i ord"
  shows "\<exists>p. price ord = Some p \<and> 0 < p"
proof -
  from assms(2) have b: "0 < bidPriceAt tb ta i" by (simp add: emittedAt_def)
  with prices_ordered[OF assms(1), of i] have "0 < askPriceAt tb ta i" by linarith
  with b assms(2) show ?thesis by (simp add: emittedAt_def)
qed


lemma ex_btc_quotes:
  "makerQuotes ''BTC-USDB'' 0 ex_half ex_config (Some ex_btc) =
     Some [quote ''BTC-USDB'' 0 Bid (9999847 / 100000) (1 / 20) 0,
           quote ''BTC-USDB'' 0 Ask (10010153 / 100000) (1 / 20) 0]"
  by (simp add: ladder_defs ex_config_def ex_makerConfig_def ex_ticker_def ex_half_def
      ex_btc_def floor_eq_iff)

lemma ex_tiny_targets: "makerTargets ex_config (Some ex_tiny) = Some (ex_tiny_bid, ex_tiny_ask)"
  by (simp add: makerTargets_def targetPrices_def spreadOf_def ex_config_def ex_makerConfig_def
      ex_ticker_def ex_tiny_def ex_tiny_bid_def ex_tiny_ask_def orDefault_def truthy_def Let_def)

lemma ex_tiny_prices:
  "bidPriceAt ex_tiny_bid ex_tiny_ask 0 = 0" "askPriceAt ex_tiny_bid ex_tiny_ask 0 = 1 / 100000"
  by (simp_all add: bidPriceAt_def askPriceAt_def ex_tiny_bid_def ex_tiny_ask_def
      roundToDecimalPlaces_def Math_round_def floor_eq_iff)

lemma ex_tiny_size: "sizeAt (ex_half n) (1 / 20) (1 / 5) 0 = 1 / 20"
  by (simp add: sizeAt_def levelFactor_def roundToDecimalPlaces_def Math_round_def
      applyVariance_def getRandomArbitrary_def ex_half_def floor_eq_iff)

text \<open>
  C4 fails on the code: the check \<^verbatim>\<open>targetBestBid >= targetBestAsk\<close> is made on the
  unrounded targets, and the prices are rounded to 5 decimals afterwards. For a ticker of
  bid 0.001999 and ask 0.002001, with the default spread of 0.1 percent, the volatility
  estimate 0.02 and the multiplier 1.5, the targets 0.00199897 and 0.00200103 pass the
  check and both round to 0.002: the cycle emits a bid and an ask at the same price.
\<close>

theorem makerQuotes_locked_level:
  "makerTargets ex_config (Some ex_low) = Some (199897 / 100000000, 200103 / 100000000) \<and>
   makerQuotes ''BTC-USDB'' 0 ex_half ex_config (Some ex_low) =
     Some [quote ''BTC-USDB'' 0 Bid (2 / 1000) (1 / 20) 0,
           quote ''BTC-USDB'' 0 Ask (2 / 1000) (1 / 20) 0]"
  by (simp add: ladder_defs ex_config_def ex_makerConfig_def ex_ticker_def ex_half_def
      ex_low_def floor_eq_iff)

text \<open>
  C5, as the claim states it, fails: \<^verbatim>\<open>if (bidPrice <= 0) continue;\<close> leaves the level,
  so the ask of that level is not emitted either. For a ticker of bid and ask 0.000005 the
  rounded bid price of the first level is 0 and the rounded ask price is 0.00001, the ask
  size is 0.05, and the ladder is empty.
\<close>

theorem ladder_level_skip_counterexample:
  "makerTargets ex_config (Some ex_tiny) = Some (ex_tiny_bid, ex_tiny_ask) \<and>
   bidPriceAt ex_tiny_bid ex_tiny_ask 0 = 0 \<and>
   askPriceAt ex_tiny_bid ex_tiny_ask 0 = 1 / 100000 \<and>
   sizeAt (ex_half 1) (1 / 20) (1 / 5) 0 = 1 / 20 \<and>
   makerQuotes ''BTC-USDB'' 0 ex_half ex_config (Some ex_tiny) = Some []"
proof -
  have "fst (generateOrders ''BTC-USDB'' 0 ex_half ex_config ex_tiny_bid ex_tiny_ask) = []"
    by (simp add: generateOrders_def ladderLevel_def ex_tiny_prices ex_config_def
        ex_makerConfig_def orDefault_def)
  then have "makerQuotes ''BTC-USDB'' 0 ex_half ex_config (Some ex_tiny) = Some []"
    by (simp add: makerQuotes_def ex_tiny_targets)
  with ex_tiny_targets ex_tiny_prices ex_tiny_size show ?thesis by simp
qed

text \<open>
  C5, amended. Every order of an emitted ladder has a positive price and a positive size
  and belongs to a level whose rounded bid price is positive; nothing is raised. A level
  whose rounded bid price is at most 0 is skipped whole: neither its bid nor its ask is
  emitted. At a level whose rounded bid price is positive, the bid is emitted iff its size
  is positive and the ask is emitted iff its size is positive, each on its own.
\<close>

theorem ladder_discards:
  "(makerQuotes symbol now rnd config ticker = Some orders \<longrightarrow>
      (\<exists>tb ta. makerTargets config ticker = Some (tb, ta) \<and>
         (\<forall>ord\<in>set orders. (\<exists>i. emittedAt tb ta i ord) \<and> 0 < osize ord \<and>
            (\<exists>p. price ord = Some p \<and> 0 < p)))) \<and>
   (bidPriceAt tb ta i \<le> 0 \<longrightarrow>
      ladderLevel symbol now rnd tb ta baseSize factor acc i = acc) \<and>
   (0 < bidPriceAt tb ta i \<longrightarrow>
      fst (ladderLevel symbol now rnd tb ta baseSize factor acc i) =
        fst acc @
        (if 0 < sizeAt (rnd (snd acc)) baseSize factor i
         then [quote symbol now Bid (bidPriceAt tb ta i)
                 (sizeAt (rnd (snd acc)) baseSize factor i) i]
         else []) @
        (if 0 < sizeAt (rnd (Suc (snd acc))) baseSize factor i
         then [quote symbol now Ask (askPriceAt tb ta i)
                 (sizeAt (rnd (Suc (snd acc))) baseSize factor i) i]
         else []))"
proof (intro conjI impI)
  assume q: "makerQuotes symbol now rnd config ticker = Some orders"
  then obtain b a where t: "makerTargets config ticker = Some (b, a)"
    and o: "orders = fst (generateOrders symbol now rnd config b a)"
    by (auto simp: makerQuotes_def split: option.splits)
  have lt: "b < a" using t by (rule makerTargets_ordered)
  have "\<forall>ord\<in>set orders. (\<exists>i. emittedAt b a i ord) \<and> 0 < osize ord \<and>
            (\<exists>p. price ord = Some p \<and> 0 < p)"
  proof
    fix ord assume "ord \<in> set orders"
    then obtain i where e: "emittedAt b a i ord" unfolding o by (blast dest: generateOrders_member)
    then have "0 < osize ord" by (simp add: emittedAt_def)
    with e emitted_price_pos[OF lt e]
    show "(\<exists>i. emittedAt b a i ord) \<and> 0 < osize ord \<and> (\<exists>p. price ord = Some p \<and> 0 < p)"
      by blast
  qed
  with t show "\<exists>tb ta. makerTargets config ticker = Some (tb, ta) \<and>
         (\<forall>ord\<in>set orders. (\<exists>i. emittedAt tb ta i ord) \<and> 0 < osize ord \<and>
            (\<exists>p. price ord = Some p \<and> 0 < p))" by blast
qed (simp_all add: ladderLevel_skip ladderLevel_emit)

theorem ladder_discards_witness:
  "makerQuotes ''BTC-USDB'' 0 ex_half ex_config (Some ex_btc) =
     Some [quote ''BTC-USDB'' 0 Bid (9999847 / 100000) (1 / 20) 0,
           quote ''BTC-USDB'' 0 Ask (10010153 / 100000) (1 / 20) 0] \<and>
   list_all (\<lambda>ord. 0 < osize ord \<and> (\<exists>p. price ord = Some p \<and> 0 < p))
     [quote ''BTC-USDB'' 0 Bid (9999847 / 100000) (1 / 20) 0,
      quote ''BTC-USDB'' 0 Ask (10010153 / 100000) (1 / 20) 0] \<and>
   bidPriceAt ex_tiny_bid ex_tiny_ask 0 \<le> 0 \<and>
   ladderLevel ''BTC-USDB'' 0 ex_half ex_tiny_bid ex_tiny_ask (1 / 20) (1 / 5) ([], 0) 0 = ([], 0) \<and>
   0 < bidPriceAt 100 101 0 \<and>
   fst (ladderLevel ''BTC-USDB'' 0 ex_half 100 101 (1 / 20) (1 / 5) ([], 0) 0) =
     [quote ''BTC-USDB'' 0 Bid (bidPriceAt 100 101 0) (1 / 20) 0,
      quote ''BTC-USDB'' 0 Ask (askPriceAt 100 101 0) (1 / 20) 0]"
proof -
  note t1 = ladder_discards[where symbol = "''BTC-USDB''" and now = 0 and rnd = ex_half
      and config = ex_config and ticker = "Some ex_btc"
      and orders = "[quote ''BTC-USDB'' 0 Bid (9999847 / 100000) (1 / 20) 0,
           quote ''BTC-USDB'' 0 Ask (10010153 / 100000) (1 / 20) 0]"
      and tb = ex_tiny_bid and ta = ex_tiny_ask and i = 0 and baseSize = "1 / 20"
      and factor = "1 / 5" and acc = "([], 0)"]
  note t2 = ladder_discards[where symbol = "''BTC-USDB''" and now = 0 and rnd = ex_half
      and tb = 100 and ta = 101 and i = 0 and baseSize = "1 / 20"
      and factor = "1 / 5" and acc = "([], 0)"]
  have a: "bidPriceAt ex_tiny_bid ex_tiny_ask 0 \<le> 0" by (simp add: ex_tiny_prices)
  have b: "0 < bidPriceAt 100 101 0"
    by (simp add: bidPriceAt_def roundToDecimalPlaces_def Math_round_def)
  from t1 ex_btc_quotes have c: "\<forall>ord\<in>set [quote ''BTC-USDB'' 0 Bid (9999847 / 100000) (1 / 20) 0,
               quote ''BTC-USDB'' 0 Ask (10010153 / 100000) (1 / 20) 0].
       0 < osize ord \<and> (\<exists>p. price ord = Some p \<and> 0 < p)" by blast
  from t1 a have d: "ladderLevel ''BTC-USDB'' 0 ex_half ex_tiny_bid ex_tiny_ask (1 / 20) (1 / 5)
      ([], 0) 0 = ([], 0)" by blast
  from t2 b have e: "fst (ladderLevel ''BTC-USDB'' 0 ex_half 100 101 (1 / 20) (1 / 5) ([], 0) 0) =
     [quote ''BTC-USDB'' 0 Bid (bidPriceAt 100 101 0) (1 / 20) 0,
      quote ''BTC-USDB'' 0 Ask (askPriceAt 100 101 0) (1 / 20) 0]"
    by (simp add: ex_tiny_size)
  from c have c': "list_all (\<lambda>ord. 0 < osize ord \<and> (\<exists>p. price ord = Some p \<and> 0 < p))
     [quote ''BTC-USDB'' 0 Bid (9999847 / 100000) (1 / 20) 0,
      quote ''BTC-USDB'' 0 Ask (10010153 / 100000) (1 / 20) 0]"
    unfolding list_all_iff .
  from ex_btc_quotes a b c' d e show ?thesis by blast
qed

section \<open>Order synthesis of the activity agent\<close>


lemma round_pos: "0 < roundToDecimalPlaces p n \<Longrightarrow> 0 < p"
proof -
  assume h: "0 < roundToDecimalPlaces p n"
  have f: "(0::rat) < 10 ^ n" by simp
  from h f have "0 < (of_int \<lfloor>p * 10 ^ n + 1 / 2\<rfloor> :: rat)"
    by (simp add: roundToDecimalPlaces_def Math_round_def Let_def zero_less_divide_iff)
  then have "0 < \<lfloor>p * 10 ^ n + 1 / 2\<rfloor>" by simp
  then have "1 \<le> \<lfloor>p * 10 ^ n + 1 / 2\<rfloor>" by simp
  then have "1 \<le> p * 10 ^ n + 1 / 2" by (simp add: le_floor_iff)
  then have "0 < p * 10 ^ n" by linarith
  with f show "0 < p" by (simp add: zero_less_mult_iff)
qed

lemma passivePrice_bound:
  "passivePrice Bid r b a \<le> a" "b \<le> passivePrice Ask r b a"
  by (simp_all add: passivePrice_def Let_def)

lemma clamp_le: "(if (a::rat) \<le> p then a else p) \<le> a"
  by simp

lemma clamp_ge: "(b::rat) \<le> (if p \<le> b then b else p)"
  by simp

lemma limitPrice_bound:
  "limitPrice Bid r b a \<le> a" "b \<le> limitPrice Ask r b a"
proof -
  define p where "p = max (min (roundToDecimalPlaces
      (getRandomArbitrary r (b * (9995 / 10000)) ((b + a) / 2)) 5) (a * (9999 / 10000)))
      (b * (99 / 100))"
  have "limitPrice Bid r b a = (if a \<le> p then a else p)"
    unfolding limitPrice_def p_def Let_def by simp
  then show "limitPrice Bid r b a \<le> a" using clamp_le[of a p] by simp
  define q where "q = min (max (roundToDecimalPlaces
      (getRandomArbitrary r ((b + a) / 2) (a * (10005 / 10000))) 5) (b * (10001 / 10000)))
      (a * (101 / 100))"
  have "limitPrice Ask r b a = (if q \<le> b then b else q)"
    unfolding limitPrice_def q_def Let_def by simp
  then show "b \<le> limitPrice Ask r b a" using clamp_ge[of q b] by simp
qed


lemma finishOrder_side [simp]: "side (finishOrder symbol now sz sd tp pr r b a) = sd"
  by (simp add: finishOrder_def split: prod.split)

lemma finalCheck_limit:
  assumes fc: "finalCheck sd tp (Some (roundToDecimalPlaces p0 5)) b a = (Limit, pr')"
    and bound: "(sd = Bid \<longrightarrow> p0 \<le> a) \<and> (sd = Ask \<longrightarrow> b \<le> p0)"
    and tp: "tp = Limit"
  shows "\<exists>p. pr' = Some p \<and> 0 < p \<and> (sd = Bid \<longrightarrow> p \<le> a) \<and> (sd = Ask \<longrightarrow> b \<le> p)"
proof -
  let ?q = "roundToDecimalPlaces p0 5"
  have pos: "0 < ?q" using fc tp by (auto simp: finalCheck_def split: if_splits)
  then have p0: "0 < p0" by (rule round_pos)
  show ?thesis
  proof (cases "sd = Bid \<and> ?q > a")
    case True
    with fc tp pos have "pr' = Some a" by (simp add: finalCheck_def)
    moreover from True bound p0 have "0 < a" by linarith
    ultimately show ?thesis using True by simp
  next
    case nb: False
    show ?thesis
    proof (cases "sd = Ask \<and> ?q < b")
      case True
      with fc tp pos nb have "pr' = Some b" by (auto simp: finalCheck_def)
      moreover from True pos have "0 < b" by linarith
      ultimately show ?thesis using True by simp
    next
      case False
      with fc tp pos nb have "pr' = Some ?q" by (auto simp: finalCheck_def)
      with pos nb False show ?thesis by (cases sd) auto
    qed
  qed
qed

lemma finishOrder_limit:
  assumes bound: "\<forall>p. pr = Some p \<longrightarrow> (sd = Bid \<longrightarrow> p \<le> a) \<and> (sd = Ask \<longrightarrow> b \<le> p)"
    and lim: "otype (finishOrder symbol now sz sd tp pr r b a) = Limit"
  shows "\<exists>p. price (finishOrder symbol now sz sd tp pr r b a) = Some p \<and> 0 < p \<and>
             (sd = Bid \<longrightarrow> p \<le> a) \<and> (sd = Ask \<longrightarrow> b \<le> p)"
proof -
  obtain tp' pr' where fc:
    "finalCheck sd tp (calculatedPrice sd tp pr r b a) b a = (tp', pr')"
    by (cases "finalCheck sd tp (calculatedPrice sd tp pr r b a) b a")
  with lim have tp': "tp' = Limit" and pr: "price (finishOrder symbol now sz sd tp pr r b a) = pr'"
    by (simp_all add: finishOrder_def)
  have tp: "tp = Limit"
  proof (rule ccontr)
    assume "tp \<noteq> Limit"
    with fc tp' show False by (simp add: finalCheck_def)
  qed
  define p0 where "p0 = (case pr of None \<Rightarrow> limitPrice sd r b a | Some p \<Rightarrow> p)"
  have cp: "calculatedPrice sd tp pr r b a = Some (roundToDecimalPlaces p0 5)"
    using tp by (cases pr) (simp_all add: calculatedPrice_def p0_def)
  have b0: "(sd = Bid \<longrightarrow> p0 \<le> a) \<and> (sd = Ask \<longrightarrow> b \<le> p0)"
  proof (cases pr)
    case None
    then show ?thesis using limitPrice_bound[where r = r and b = b and a = a]
      by (auto simp: p0_def)
  next
    case (Some p)
    with bound show ?thesis by (simp add: p0_def)
  qed
  from finalCheck_limit[OF fc[unfolded cp tp'] b0 tp] pr show ?thesis by simp
qed

lemma finish_sound:
  assumes "pr = None \<or> (\<exists>r'. pr = Some (passivePrice sd r' b a))"
  shows "soundLimit b a (finishOrder symbol now sz sd tp pr r b a)"
proof -
  have "\<forall>p. pr = Some p \<longrightarrow> (sd = Bid \<longrightarrow> p \<le> a) \<and> (sd = Ask \<longrightarrow> b \<le> p)"
    using assms passivePrice_bound by auto
  from finishOrder_limit[OF this] show ?thesis by (simp add: soundLimit_def)
qed

lemma generate_sound:
  assumes "generateOrderBasedOnStrategy symbol now rnd marketTaker recentPrices strategy ticker
             = Some ord"
  shows "soundLimit (the (tbid ticker)) (the (task ticker)) ord \<and>
         truthy (tbid ticker) \<and> truthy (task ticker) \<and> 0 < osize ord"
proof -
  have sz: "\<And>sz sd tp pr r b a. osize (finishOrder symbol now sz sd tp pr r b a) = sz"
    by (simp add: finishOrder_def split: prod.split)
  from assms show ?thesis
    unfolding generateOrderBasedOnStrategy_def Let_def
    by (auto split: if_splits Strategy.splits option.splits simp: not_le sz
        intro!: finish_sound)
qed

lemma finishOrder_alt:
  "Some (finishOrder symbol now sz sd tp pr r b a) =
     (case finalCheck sd tp (calculatedPrice sd tp pr r b a) b a of
        (tp', pr') \<Rightarrow>
          Some \<lparr> pair = symbol, side = sd, otype = tp', price = pr', osize = sz,
                 timestamp = now, level = None, oid = None, status = None \<rparr>)"
  by (simp add: finishOrder_def split: prod.split)

lemma generate_stages:
  "generateOrderBasedOnStrategy symbol now rnd marketTaker recentPrices strategy ticker =
     (case beforeFinalCheck rnd marketTaker recentPrices strategy ticker of
        None \<Rightarrow> None
      | Some (sz, sd, tp, pr) \<Rightarrow>
          (case finalCheck sd tp pr (the (tbid ticker)) (the (task ticker)) of
             (tp', pr') \<Rightarrow>
               Some \<lparr> pair = symbol, side = sd, otype = tp', price = pr', osize = sz,
                      timestamp = now, level = None, oid = None, status = None \<rparr>))"
  unfolding generateOrderBasedOnStrategy_def beforeFinalCheck_def Let_def
  by (cases strategy; cases "momentumSide recentPrices";
      cases "meanReversionSide recentPrices (the (tlast ticker))
               (meanReversionThreshold marketTaker)";
      simp add: finishOrder_alt)

lemma generate_degrade:
  assumes st: "beforeFinalCheck rnd marketTaker recentPrices strategy ticker
                 = Some (sz, sd, Limit, pr)"
    and np: "\<forall>p. pr = Some p \<longrightarrow> p \<le> 0"
  shows "generateOrderBasedOnStrategy symbol now rnd marketTaker recentPrices strategy ticker =
           Some \<lparr> pair = symbol, side = sd, otype = Market, price = None, osize = sz,
                  timestamp = now, level = None, oid = None, status = None \<rparr>"
proof -
  have "finalCheck sd Limit pr (the (tbid ticker)) (the (task ticker)) = (Market, None)"
    using np by (cases pr) (simp_all add: finalCheck_def)
  with st show ?thesis by (simp add: generate_stages)
qed

lemma generate_none:
  "generateOrderBasedOnStrategy symbol now rnd marketTaker recentPrices strategy ticker = None
     \<longleftrightarrow>
   (roundToDecimalPlaces (applyVariance (rnd 1) (baseOrderSize marketTaker)
        (takerSizeRandomizationFactor marketTaker)) 8 \<le> 0 \<or>
    \<not> truthy (tbid ticker) \<or> \<not> truthy (task ticker) \<or> \<not> truthy (tlast ticker) \<or>
    (strategy = MeanReversion \<and>
     meanReversionSide recentPrices (the (tlast ticker)) (meanReversionThreshold marketTaker)
       = None))"
  unfolding generateOrderBasedOnStrategy_def Let_def
  by (cases strategy; cases "momentumSide recentPrices";
      cases "meanReversionSide recentPrices (the (tlast ticker))
               (meanReversionThreshold marketTaker)";
      auto)

lemma beforeFinalCheck_priced:
  assumes "beforeFinalCheck rnd marketTaker recentPrices strategy ticker
             = Some (sz, sd, Limit, pr)"
  shows "\<exists>p. pr = Some p"
proof -
  have cp: "\<And>sd' pr0 r b a. \<exists>p. calculatedPrice sd' Limit pr0 r b a = Some p"
    by (simp add: calculatedPrice_def)
  from assms show ?thesis
    unfolding beforeFinalCheck_def Let_def
    by (cases strategy; cases "momentumSide recentPrices";
        cases "meanReversionSide recentPrices (the (tlast ticker))
                 (meanReversionThreshold marketTaker)";
        cases "rnd 0 < marketOrderProbability marketTaker")
       (auto split: if_splits intro: cp)
qed

text \<open>
  C9: an order that the taker's synthesis \<^verbatim>\<open>generateOrderBasedOnStrategy\<close> returns with
  kind limit has a positive price, at most the ticker's best ask when it is a bid and at
  least the ticker's best bid when it is an ask. When the synthesis reaches its final
  check with kind limit and a calculated price that is undefined or not positive, it
  returns the order all the same, with that size and side, as a market order without a
  price; a limit order always reaches the final check with a price, so of the two cases
  only the price that is not positive occurs. It returns no order only when the drawn size is not positive, the ticker lacks a
  bid, an ask or a last price, or the strategy is mean reversion and has no signal: never
  because of the price.
\<close>

theorem taker_limit_orders:
  "(generateOrderBasedOnStrategy symbol now rnd marketTaker recentPrices strategy ticker
       = Some ord \<longrightarrow> otype ord = Limit \<longrightarrow>
      (\<exists>b a p. tbid ticker = Some b \<and> task ticker = Some a \<and> price ord = Some p \<and> 0 < p \<and>
         (side ord = Bid \<longrightarrow> p \<le> a) \<and> (side ord = Ask \<longrightarrow> b \<le> p))) \<and>
   (beforeFinalCheck rnd marketTaker recentPrices strategy ticker = Some (sz, sd, Limit, pr) \<longrightarrow>
      (\<forall>p. pr = Some p \<longrightarrow> p \<le> 0) \<longrightarrow>
      generateOrderBasedOnStrategy symbol now rnd marketTaker recentPrices strategy ticker =
        Some \<lparr> pair = symbol, side = sd, otype = Market, price = None, osize = sz,
               timestamp = now, level = None, oid = None, status = None \<rparr>) \<and>
   (beforeFinalCheck rnd marketTaker recentPrices strategy ticker = Some (sz, sd, Limit, pr) \<longrightarrow>
      (\<exists>p. pr = Some p)) \<and>
   (generateOrderBasedOnStrategy symbol now rnd marketTaker recentPrices strategy ticker = None
      \<longleftrightarrow>
    (roundToDecimalPlaces (applyVariance (rnd 1) (baseOrderSize marketTaker)
         (takerSizeRandomizationFactor marketTaker)) 8 \<le> 0 \<or>
     \<not> truthy (tbid ticker) \<or> \<not> truthy (task ticker) \<or> \<not> truthy (tlast ticker) \<or>
     (strategy = MeanReversion \<and>
      meanReversionSide recentPrices (the (tlast ticker)) (meanReversionThreshold marketTaker)
        = None)))"
proof (intro conjI impI)
  assume g: "generateOrderBasedOnStrategy symbol now rnd marketTaker recentPrices strategy ticker
       = Some ord" and l: "otype ord = Limit"
  from generate_sound[OF g] l obtain p where
    "price ord = Some p" "0 < p" "side ord = Bid \<longrightarrow> p \<le> the (task ticker)"
    "side ord = Ask \<longrightarrow> the (tbid ticker) \<le> p"
    and t: "truthy (tbid ticker)" "truthy (task ticker)"
    by (auto simp: soundLimit_def)
  moreover from t obtain b a where "tbid ticker = Some b" "task ticker = Some a"
    by (auto simp: truthy_def split: option.splits)
  ultimately show "\<exists>b a p. tbid ticker = Some b \<and> task ticker = Some a \<and> price ord = Some p \<and>
      0 < p \<and> (side ord = Bid \<longrightarrow> p \<le> a) \<and> (side ord = Ask \<longrightarrow> b \<le> p)" by auto
next
  assume "beforeFinalCheck rnd marketTaker recentPrices strategy ticker = Some (sz, sd, Limit, pr)"
    and "\<forall>p. pr = Some p \<longrightarrow> p \<le> 0"
  then show "generateOrderBasedOnStrategy symbol now rnd marketTaker recentPrices strategy ticker =
        Some \<lparr> pair = symbol, side = sd, otype = Market, price = None, osize = sz,
               timestamp = now, level = None, oid = None, status = None \<rparr>"
    by (rule generate_degrade)
next
  assume "beforeFinalCheck rnd marketTaker recentPrices strategy ticker = Some (sz, sd, Limit, pr)"
  then show "\<exists>p. pr = Some p" by (rule beforeFinalCheck_priced)
next
  show "generateOrderBasedOnStrategy symbol now rnd marketTaker recentPrices strategy ticker = None
      \<longleftrightarrow>
    (roundToDecimalPlaces (applyVariance (rnd 1) (baseOrderSize marketTaker)
         (takerSizeRandomizationFactor marketTaker)) 8 \<le> 0 \<or>
     \<not> truthy (tbid ticker) \<or> \<not> truthy (task ticker) \<or> \<not> truthy (tlast ticker) \<or>
     (strategy = MeanReversion \<and>
      meanReversionSide recentPrices (the (tlast ticker)) (meanReversionThreshold marketTaker)
        = None))"
    by (rule generate_none)
qed


lemma floor_numeral_div:
  "\<lfloor>numeral v / numeral w :: rat\<rfloor> = numeral v div numeral w"
  "\<lfloor>1 / numeral w :: rat\<rfloor> = 1 div numeral w"
  using floor_divide_of_int_eq[of "numeral v" "numeral w", where ?'a = rat]
    floor_divide_of_int_eq[of 1 "numeral w", where ?'a = rat]
  by simp_all

lemmas taker_defs = generateOrderBasedOnStrategy_def finishOrder_def finalCheck_def
  calculatedPrice_def limitPrice_def passivePrice_def coin_def momentumSide_def
  meanReversionSide_def roundToDecimalPlaces_def Math_round_def applyVariance_def
  getRandomArbitrary_def truthy_def Let_def

lemma ex_size:
  "roundToDecimalPlaces (applyVariance (1 / 2) (1 / 50) (3 / 10)) 8 = 1 / 50"
  by (simp add: roundToDecimalPlaces_def Math_round_def applyVariance_def
      getRandomArbitrary_def floor_numeral_div)

lemma ex_passivePrice: "passivePrice Ask (1 / 2) 100 (1001 / 10) = 10006997 / 100000"
  by (simp add: passivePrice_def roundToDecimalPlaces_def Math_round_def
      getRandomArbitrary_def floor_numeral_div)

lemma ex_round: "roundToDecimalPlaces (10006997 / 100000) 5 = 10006997 / 100000"
  by (simp add: roundToDecimalPlaces_def Math_round_def floor_numeral_div)

lemma ex_finish:
  "finishOrder ''BTC-USDB'' 0 (1 / 50) Ask Limit (Some (10006997 / 100000)) (1 / 2) 100 (1001 / 10) =
     \<lparr> pair = ''BTC-USDB'', side = Ask, otype = Limit, price = Some (10006997 / 100000),
       osize = 1 / 50, timestamp = 0, level = None, oid = None, status = None \<rparr>"
  by (simp add: finishOrder_def calculatedPrice_def ex_round finalCheck_def)

lemma ex_passive:
  "generateOrderBasedOnStrategy ''BTC-USDB'' 0 ex_half ex_taker [] PassiveLimit ex_btc =
     Some \<lparr> pair = ''BTC-USDB'', side = Ask, otype = Limit, price = Some (10006997 / 100000),
            osize = 1 / 50, timestamp = 0, level = None, oid = None, status = None \<rparr>"
  by (simp add: generateOrderBasedOnStrategy_def ex_half_def ex_taker_def ex_btc_def
      ex_ticker_def truthy_def coin_def ex_size ex_passivePrice ex_finish)

lemma ex_dust_price:
  "calculatedPrice Ask Limit None (1 / 2) (1 / 1000000) (1 / 1000000) = Some 0"
  by (simp add: taker_defs floor_numeral_div)

lemma ex_dust_stage:
  "beforeFinalCheck ex_half ex_limit_taker [] Random ex_dust = Some (1 / 50, Ask, Limit, Some 0)"
  by (simp add: beforeFinalCheck_def ex_half_def ex_limit_taker_def ex_taker_def ex_dust_def
      ex_ticker_def truthy_def coin_def ex_size ex_dust_price)

theorem taker_limit_orders_witness:
  "generateOrderBasedOnStrategy ''BTC-USDB'' 0 ex_half ex_taker [] PassiveLimit ex_btc =
     Some \<lparr> pair = ''BTC-USDB'', side = Ask, otype = Limit, price = Some (10006997 / 100000),
            osize = 1 / 50, timestamp = 0, level = None, oid = None, status = None \<rparr> \<and>
   (\<exists>b a p. tbid ex_btc = Some b \<and> task ex_btc = Some a \<and>
      Some (10006997 / 100000) = Some p \<and> 0 < p \<and> b \<le> p) \<and>
   beforeFinalCheck ex_half ex_limit_taker [] Random ex_dust = Some (1 / 50, Ask, Limit, Some 0) \<and>
   generateOrderBasedOnStrategy ''BTC-USDB'' 0 ex_half ex_limit_taker [] Random ex_dust =
     Some \<lparr> pair = ''BTC-USDB'', side = Ask, otype = Market, price = None,
            osize = 1 / 50, timestamp = 0, level = None, oid = None, status = None \<rparr>"
proof -
  let ?ord = "\<lparr> pair = ''BTC-USDB'', side = Ask, otype = Limit, price = Some (10006997 / 100000),
            osize = 1 / 50, timestamp = 0, level = None, oid = None, status = None \<rparr>"
  note t1 = taker_limit_orders[where symbol = "''BTC-USDB''" and now = 0 and rnd = ex_half
      and marketTaker = ex_taker and recentPrices = "[]" and strategy = PassiveLimit
      and ticker = ex_btc and ord = ?ord]
  note t2 = taker_limit_orders[where symbol = "''BTC-USDB''" and now = 0 and rnd = ex_half
      and marketTaker = ex_limit_taker and recentPrices = "[]" and strategy = Random
      and ticker = ex_dust and sz = "1 / 50" and sd = Ask and pr = "Some 0"]
  from t1 ex_passive have a: "\<exists>b a p. tbid ex_btc = Some b \<and> task ex_btc = Some a \<and>
      Some (10006997 / 100000) = Some p \<and> 0 < p \<and> b \<le> p" by simp
  from t2 ex_dust_stage have b:
    "generateOrderBasedOnStrategy ''BTC-USDB'' 0 ex_half ex_limit_taker [] Random ex_dust =
       Some \<lparr> pair = ''BTC-USDB'', side = Ask, otype = Market, price = None,
              osize = 1 / 50, timestamp = 0, level = None, oid = None, status = None \<rparr>"
    by simp
  from ex_passive a ex_dust_stage b show ?thesis by blast
qed

section \<open>Scheduling, pair and fleet lifecycle\<close>


lemma tracked_scheduleNextRun: "tracked w \<Longrightarrow> tracked (scheduleNextRun w)"
  by (auto simp: tracked_def scheduleNextRun_def clearTimeout_def Let_def split: option.splits)

lemma tracked_start: "tracked w \<Longrightarrow> tracked (start w)"
proof -
  assume t: "tracked w"
  then have "tracked (w\<lparr> bot := (bot w)\<lparr> isRunning := True \<rparr> \<rparr>)" by (simp add: tracked_def)
  then show ?thesis using t by (simp add: start_def tracked_scheduleNextRun)
qed

lemma stop_fields:
  "isRunning (bot (stop agent w)) = False"
  "timeoutId (bot (stop agent w)) = None"
  "timers (stop agent w) =
     (case timeoutId (bot w) of Some h \<Rightarrow> removeAll h (timers w) | None \<Rightarrow> timers w)"
  "cycles (stop agent w) = cycles w"
  "inflight (stop agent w) = inflight w"
  by (simp_all add: stop_def clearTimeout_def Let_def split: option.split Agent.split)

lemma stop_quiet:
  assumes "tracked w"
  shows "\<not> isRunning (bot (stop agent w))" and "timers (stop agent w) = []"
    and "timeoutId (bot (stop agent w)) = None"
    and "cycles (stop agent w) = cycles w"
proof -
  show "\<not> isRunning (bot (stop agent w))" "timeoutId (bot (stop agent w)) = None"
    "cycles (stop agent w) = cycles w" by (simp_all add: stop_fields)
  show "timers (stop agent w) = []"
  proof (cases "timeoutId (bot w)")
    case None
    with assms show ?thesis by (simp add: stop_fields tracked_def)
  next
    case (Some h)
    with assms have "set (timers w) \<subseteq> {h}" by (simp add: tracked_def)
    then have "removeAll h (timers w) = []" by (auto simp: removeAll_filter_not_eq filter_empty_conv)
    with Some show ?thesis by (simp add: stop_fields)
  qed
qed

lemma quiet_scheduleNextRun: "quiet w \<Longrightarrow> scheduleNextRun w = w"
  by (simp add: quiet_def scheduleNextRun_def)

lemma quiet_step:
  assumes "quiet w" and "ev \<noteq> Start"
  shows "quiet (step agent w ev) \<and> cycles (step agent w ev) = cycles w"
proof (cases ev)
  case Start
  with assms show ?thesis by simp
next
  case Stop
  from assms(1) have "tracked w" by (simp add: quiet_def tracked_def)
  from stop_quiet[OF this, of agent] Stop show ?thesis by (simp add: step_def quiet_def)
next
  case (Fire h)
  with assms show ?thesis by (simp add: step_def quiet_def)
next
  case (CycleEnd early m)
  let ?w1 = "w\<lparr> inflight := inflight w - 1,
                bot := (if agent = Maker then (bot w)\<lparr> activeMakerOrders := m \<rparr> else bot w) \<rparr>"
  have q: "quiet ?w1" using assms(1) by (simp add: quiet_def)
  have "step agent w ev = (if inflight w = 0 then w else ?w1)"
    using CycleEnd quiet_scheduleNextRun[OF q] by (simp add: step_def Let_def)
  with q assms(1) show ?thesis by simp
qed

lemma quiet_exec:
  "quiet w \<Longrightarrow> Start \<notin> set evs \<Longrightarrow>
     quiet (exec agent w evs) \<and> cycles (exec agent w evs) = cycles w"
proof (induction evs arbitrary: w)
  case Nil
  then show ?case by (simp add: exec_def)
next
  case (Cons ev evs)
  from Cons.prems have "ev \<noteq> Start" by auto
  from quiet_step[OF Cons.prems(1) this, of agent]
  have q: "quiet (step agent w ev)" and c: "cycles (step agent w ev) = cycles w" by simp_all
  from Cons.prems have "Start \<notin> set evs" by simp
  from Cons.IH[OF q this] c show ?case by (simp add: exec_def)
qed

lemma tracked_step: "tracked w \<Longrightarrow> tracked (step agent w ev)"
proof (cases ev)
  case Start
  assume "tracked w" then show ?thesis using Start by (simp add: step_def tracked_start)
next
  case Stop
  assume "tracked w"
  from stop_quiet[OF this, of agent] Stop show ?thesis by (simp add: step_def tracked_def)
next
  case (Fire h)
  assume "tracked w" then show ?thesis using Fire by (auto simp: step_def tracked_def Let_def)
next
  case (CycleEnd early m)
  assume t: "tracked w"
  let ?w1 = "w\<lparr> inflight := inflight w - 1,
                bot := (if agent = Maker then (bot w)\<lparr> activeMakerOrders := m \<rparr> else bot w) \<rparr>"
  have "tracked ?w1" using t by (simp add: tracked_def)
  then have a: "tracked (scheduleNextRun (if early then scheduleNextRun ?w1 else ?w1))"
    by (simp add: tracked_scheduleNextRun)
  have "step agent w ev =
      (if inflight w = 0 then w
       else scheduleNextRun (if early then scheduleNextRun ?w1 else ?w1))"
    unfolding CycleEnd step_def Let_def by simp
  with t a show ?thesis by simp
qed

lemma tracked_exec: "tracked w \<Longrightarrow> tracked (exec agent w evs)"
  unfolding exec_def by (induction evs arbitrary: w) (simp_all add: tracked_step)

lemma tracked_newBot: "tracked newBot"
  by (simp add: tracked_def newBot_def)

lemma exec_append: "exec agent w (xs @ ys) = exec agent (exec agent w xs) ys"
  by (simp add: exec_def)

lemma stop_maker_map: "activeMakerOrders (bot (stop Maker w)) = []"
  by (simp add: stop_def clearTimeout_def Let_def split: option.split)

lemma stop_stopped:
  assumes "\<not> isRunning (bot w)" and "timeoutId (bot w) = None"
  shows "stop Taker w = w"
    and "activeMakerOrders (bot w) = [] \<Longrightarrow>
           stop Maker w = w\<lparr> effects := effects w @ [LogNoActiveOrders] \<rparr>"
proof -
  have b: "(bot w)\<lparr> isRunning := False \<rparr> = bot w" using assms(1) by simp
  show "stop Taker w = w" using assms(2) by (simp add: stop_def b)
  show "activeMakerOrders (bot w) = [] \<Longrightarrow>
           stop Maker w = w\<lparr> effects := effects w @ [LogNoActiveOrders] \<rparr>"
    using assms(2) by (simp add: stop_def b)
qed

lemma stop_twice:
  "bot (stop agent (stop agent w)) = bot (stop agent w) \<and>
   timers (stop agent (stop agent w)) = timers (stop agent w) \<and>
   cycles (stop agent (stop agent w)) = cycles (stop agent w) \<and>
   effects (stop agent (stop agent w)) =
     effects (stop agent w) @ (if agent = Maker then [LogNoActiveOrders] else [])"
proof (cases agent)
  case Taker
  from stop_stopped(1)[of "stop Taker w"] show ?thesis
    unfolding Taker by (simp add: stop_fields)
next
  case Maker
  from stop_stopped(2)[of "stop Maker w"] show ?thesis
    unfolding Maker by (simp add: stop_fields stop_maker_map)
qed


text \<open>
  C7: take any history of an agent from its construction, then \<^verbatim>\<open>stop()\<close>, then any
  events other than \<^verbatim>\<open>start()\<close> (timers firing, cycles in flight finishing, further
  stops). Right after the stop no timer is pending; afterwards no cycle is started, no
  timer is ever pending again (a cycle that finishes does not reschedule) and the agent
  stays stopped. A second \<^verbatim>\<open>stop()\<close> right after a first changes neither the agent nor
  the timers; it clears no timer and cancels nothing, the only effect being the quoting
  agent's log line that there is nothing to cancel.
\<close>

theorem stop_ends_cycles:
  "(Start \<notin> set after \<longrightarrow>
      timers (exec agent newBot (before @ [Stop])) = [] \<and>
      cycles (exec agent newBot (before @ [Stop] @ after))
        = cycles (exec agent newBot (before @ [Stop])) \<and>
      timers (exec agent newBot (before @ [Stop] @ after)) = [] \<and>
      \<not> isRunning (bot (exec agent newBot (before @ [Stop] @ after)))) \<and>
   (bot (stop agent (stop agent w)) = bot (stop agent w) \<and>
    timers (stop agent (stop agent w)) = timers (stop agent w) \<and>
    cycles (stop agent (stop agent w)) = cycles (stop agent w) \<and>
    effects (stop agent (stop agent w)) =
      effects (stop agent w) @ (if agent = Maker then [LogNoActiveOrders] else []))"
proof (intro conjI impI)
  assume ns: "Start \<notin> set after"
  let ?w0 = "exec agent newBot before"
  let ?w1 = "exec agent newBot (before @ [Stop])"
  have t: "tracked ?w0" using tracked_newBot by (rule tracked_exec)
  have w1: "?w1 = stop agent ?w0" by (simp add: exec_def step_def)
  from stop_quiet[OF t, of agent] have q: "quiet ?w1" by (simp add: w1 quiet_def)
  then show "timers ?w1 = []" by (simp add: quiet_def)
  have full: "exec agent newBot (before @ [Stop] @ after) = exec agent ?w1 after"
    using exec_append[of agent newBot "before @ [Stop]" after] by simp
  from quiet_exec[OF q ns, of agent]
  show "cycles (exec agent newBot (before @ [Stop] @ after)) = cycles ?w1"
    and "timers (exec agent newBot (before @ [Stop] @ after)) = []"
    and "\<not> isRunning (bot (exec agent newBot (before @ [Stop] @ after)))"
    unfolding full by (simp_all add: quiet_def)
qed (simp_all add: stop_twice)

lemma ex_history:
  "cycles (exec Maker newBot ([Start, Fire 0] @ [Stop])) = 1"
  "inflight (exec Maker newBot ([Start, Fire 0] @ [Stop])) = 1"
  by (simp_all add: exec_def step_def start_def stop_def scheduleNextRun_def newBot_def
      clearTimeout_def Let_def)

theorem stop_ends_cycles_witness:
  "Start \<notin> set [CycleEnd False ex_active, Fire 1, Stop] \<and>
   inflight (exec Maker newBot ([Start, Fire 0] @ [Stop])) = 1 \<and>
   timers (exec Maker newBot ([Start, Fire 0] @ [Stop])) = [] \<and>
   cycles (exec Maker newBot ([Start, Fire 0] @ [Stop] @ [CycleEnd False ex_active, Fire 1, Stop])) = 1 \<and>
   timers (exec Maker newBot ([Start, Fire 0] @ [Stop] @ [CycleEnd False ex_active, Fire 1, Stop])) = []"
proof -
  have a: "Start \<notin> set [CycleEnd False ex_active, Fire 1, Stop]" by simp
  from stop_ends_cycles[where after = "[CycleEnd False ex_active, Fire 1, Stop]"
      and agent = Maker and before = "[Start, Fire 0]"] a ex_history
  show ?thesis by simp
qed

text \<open>
  C6 fails on the code: \<^verbatim>\<open>MarketMakerBot.stop\<close> only simulates the cancellation. For a
  running pair whose quoting agent holds two resting orders, \<^verbatim>\<open>PairTrader.stop\<close> stops
  the taker and then the maker and the maker empties its map, but all the maker does
  besides clearing its timer is to log one simulated cancel per order: no call is made on
  the order-execution client.
\<close>

theorem pairStop_simulates_cancel:
  "pairRunning ex_pair \<and>
   activeMakerOrders (bot (mmBot ex_pair)) = ex_active \<and>
   snd (pairStop ex_pair) = [AgentStop Taker, AgentStop Maker] \<and>
   activeMakerOrders (bot (mmBot (fst (pairStop ex_pair)))) = [] \<and>
   effects (mmBot (fst (pairStop ex_pair))) =
     [SetTimeout 0, ClearTimeout 0, LogSimulatedCancel ''a1'', LogSimulatedCancel ''a2'']"
  by (simp add: pairStop_def ex_pair_def start_def stop_def scheduleNextRun_def newBot_def
      clearTimeout_def Let_def ex_active_def)

text \<open>
  C8 fails on the code: \<^verbatim>\<open>BotManager.initialize\<close> catches the rejection of the
  market-data provider and returns \<^verbatim>\<open>false\<close>, \<^verbatim>\<open>BotManager.start\<close> then returns
  normally, and \<^verbatim>\<open>main\<close> goes on to await forever: no pair trader exists or is started,
  but the process does not exit with code 1.
\<close>

theorem main_provider_failure:
  "main False ex_auth [''BTC-USDB'', ''BTC-EURB''] = Awaiting newBotManager \<and>
   traders newBotManager = [] \<and>
   main False ex_auth [''BTC-USDB'', ''BTC-EURB''] \<noteq> Exited 1"
  by (simp add: main_def managerStart_def initialize_def newBotManager_def)

end
